theory Spec2Isabelle
  imports Main "HOL-Library.Word"
begin

unbundle bit_operations_syntax

section \<open>Breakout for the GameTank: the per-frame simulation\<close>

text \<open>
  The embedding follows \<^verbatim>\<open>breakout.cpp\<close> and \<^verbatim>\<open>gametank.h\<close>. The globals of the
  program are the fields of one record; every function of the source that mutates them
  takes the record and returns it updated. \<^verbatim>\<open>uint8_t\<close> and \<^verbatim>\<open>int8_t\<close> are 8-bit words
  (the signed ones are read with \<open>sint\<close>), \<^verbatim>\<open>uint16_t\<close> is a 16-bit word. C evaluates
  every arithmetic expression on these types in \<^verbatim>\<open>int\<close> after integer promotion, and
  only an assignment truncates: the model does the same, with \<open>uint\<close>/\<open>sint\<close> into
  \<open>int\<close> for an expression and \<open>word_of_int\<close> for a store.
\<close>

type_synonym uint8_t = "8 word"
type_synonym int8_t = "8 word"
type_synonym uint16_t = "16 word"

subsection \<open>Constants\<close>

text \<open>The macros of the two files; each unfolds under simplification.\<close>

definition PADDLE_WIDTH :: int where [simp]: "PADDLE_WIDTH = 24"
definition PADDLE_HEIGHT :: int where [simp]: "PADDLE_HEIGHT = 4"
definition PADDLE_Y :: int where [simp]: "PADDLE_Y = 115"
definition PADDLE_SPEED :: int where [simp]: "PADDLE_SPEED = 2"

definition BALL_SIZE :: int where [simp]: "BALL_SIZE = 3"
definition BALL_SPEED_X :: int where [simp]: "BALL_SPEED_X = 2"
definition BALL_SPEED_Y :: int where [simp]: "BALL_SPEED_Y = 2"

definition BRICK_WIDTH :: int where [simp]: "BRICK_WIDTH = 15"
definition BRICK_HEIGHT :: int where [simp]: "BRICK_HEIGHT = 6"
definition BRICK_ROWS :: int where [simp]: "BRICK_ROWS = 6"
definition BRICK_COLS :: int where [simp]: "BRICK_COLS = 8"
definition BRICK_START_X :: int where [simp]: "BRICK_START_X = 4"
definition BRICK_START_Y :: int where [simp]: "BRICK_START_Y = 10"
definition BRICK_SPACING_X :: int where [simp]: "BRICK_SPACING_X = 16"
definition BRICK_SPACING_Y :: int where [simp]: "BRICK_SPACING_Y = 7"

definition TOTAL_BRICKS :: int where [simp]: "TOTAL_BRICKS = BRICK_ROWS * BRICK_COLS"

definition SCREEN_WIDTH :: int where [simp]: "SCREEN_WIDTH = 128"
definition SCREEN_HEIGHT :: int where [simp]: "SCREEN_HEIGHT = 128"

definition BTN_RIGHT :: uint8_t where [simp]: "BTN_RIGHT = 0x01"
definition BTN_LEFT :: uint8_t where [simp]: "BTN_LEFT = 0x02"
definition BTN_A :: uint8_t where [simp]: "BTN_A = 0x10"

definition HUE_RED :: uint8_t where [simp]: "HUE_RED = 0x60"
definition SAT_FULL :: uint8_t where [simp]: "SAT_FULL = 0x18"

subsection \<open>State\<close>

text \<open>
  \<^verbatim>\<open>struct Brick\<close>; its fields \<^verbatim>\<open>x\<close>, \<^verbatim>\<open>y\<close>, \<^verbatim>\<open>color\<close>, \<^verbatim>\<open>active\<close> carry the prefix
  \<open>brick_\<close> here, since a record field is a constant of the whole theory.
\<close>

record Brick =
  brick_x :: uint8_t
  brick_y :: uint8_t
  brick_color :: uint8_t
  brick_active :: uint8_t

text \<open>
  The global variables the simulation reads and writes. \<^verbatim>\<open>bricks\<close> is the array
  \<^verbatim>\<open>Brick bricks[TOTAL_BRICKS]\<close>, a list that has 48 entries in every state of the
  program (\<open>power_on\<close> below, and every function keeps the length).
\<close>

record game =
  frame_count :: uint8_t
  paddle_x :: uint8_t
  ball_x :: uint8_t
  ball_y :: uint8_t
  ball_vx :: int8_t
  ball_vy :: int8_t
  ball_state :: uint8_t
  input_buffer :: uint8_t
  prev_input :: uint8_t
  score :: uint16_t
  lives :: uint8_t
  bricks_left :: uint8_t
  bricks :: "Brick list"

text \<open>Static storage before \<^verbatim>\<open>main\<close> runs: every global is zero.\<close>

definition power_on :: game where
  "power_on =
     \<lparr>frame_count = 0, paddle_x = 0, ball_x = 0, ball_y = 0, ball_vx = 0, ball_vy = 0,
      ball_state = 0, input_buffer = 0, prev_input = 0, score = 0, lives = 0,
      bricks_left = 0,
      bricks = replicate 48 \<lparr>brick_x = 0, brick_y = 0, brick_color = 0, brick_active = 0\<rparr>\<rparr>"

subsection \<open>Initialisation\<close>

text \<open>
  The loop of \<^verbatim>\<open>init_bricks\<close>, from index \<open>idx\<close> on. The counter of the source is a
  \<^verbatim>\<open>uint8_t\<close> that stays below 48, so it never wraps and is a \<open>nat\<close> here.
\<close>

function init_bricks_loop :: "nat \<Rightarrow> game \<Rightarrow> game" where
  "init_bricks_loop idx s =
     (if int idx < TOTAL_BRICKS then
        (let row = (word_of_int (int idx div 8) :: uint8_t);
             col = (word_of_int (int idx AND 0x07) :: uint8_t);
             b = (bricks s ! idx)
                   \<lparr>brick_x := word_of_int (push_bit 4 (uint col) + BRICK_START_X),
                    brick_y := word_of_int (uint row * 7 + BRICK_START_Y),
                    brick_color := word_of_int (uint row + 1),
                    brick_active := 1\<rparr>
         in init_bricks_loop (idx + 1)
              (s\<lparr>bricks := (bricks s)[idx := b],
                 bricks_left := word_of_int (uint (bricks_left s) + 1)\<rparr>))
      else s)"
  by pat_completeness auto
termination
  by (relation "measure (\<lambda>(idx, s). 48 - idx)") auto

declare init_bricks_loop.simps [simp del]

definition init_bricks :: "game \<Rightarrow> game" where
  "init_bricks s = init_bricks_loop 0 (s\<lparr>bricks_left := 0\<rparr>)"

definition init_game :: "game \<Rightarrow> game" where
  "init_game s =
     init_bricks
       (s\<lparr>paddle_x := word_of_int ((SCREEN_WIDTH - PADDLE_WIDTH) div 2),
          ball_state := 0,
          ball_vx := 0,
          ball_vy := 0,
          ball_x := word_of_int ((SCREEN_WIDTH - BALL_SIZE) div 2),
          ball_y := word_of_int (PADDLE_Y - BALL_SIZE - 1),
          score := 0,
          lives := 3,
          frame_count := 0,
          input_buffer := 0,
          prev_input := 0\<rparr>)"

subsection \<open>Input\<close>

text \<open>
  \<^verbatim>\<open>read_input\<close>; the argument is the value the second read of the register
  \<^verbatim>\<open>GAMEPAD1\<close> returns (buttons are active-low).
\<close>

definition read_input :: "uint8_t \<Rightarrow> game \<Rightarrow> game" where
  "read_input GAMEPAD1 s =
     s\<lparr>prev_input := input_buffer s, input_buffer := GAMEPAD1 XOR 0xFF\<rparr>"

subsection \<open>Paddle\<close>

definition update_paddle :: "game \<Rightarrow> game" where
  "update_paddle s =
     (let s1 =
        (if input_buffer s AND BTN_RIGHT \<noteq> 0 then
           (let new_x = (word_of_int (uint (paddle_x s) + PADDLE_SPEED) :: uint8_t)
            in if uint new_x < SCREEN_WIDTH - PADDLE_WIDTH then s\<lparr>paddle_x := new_x\<rparr> else s)
         else s)
      in
        if input_buffer s1 AND BTN_LEFT \<noteq> 0 then
          (if uint (paddle_x s1) \<ge> PADDLE_SPEED
           then s1\<lparr>paddle_x := word_of_int (uint (paddle_x s1) - PADDLE_SPEED)\<rparr>
           else s1)
        else s1)"

subsection \<open>Ball\<close>

text \<open>
  \<^verbatim>\<open>update_ball\<close> is one function with early returns; the model names its consecutive
  blocks. The block for a ball resting on the paddle (\<^verbatim>\<open>ball_state == 0\<close>):
\<close>

definition ball_on_paddle :: "game \<Rightarrow> game" where
  "ball_on_paddle s =
     (let s1 = s\<lparr>ball_x := word_of_int (uint (paddle_x s) + (PADDLE_WIDTH - BALL_SIZE) div 2)\<rparr>
      in if input_buffer s1 AND BTN_A \<noteq> 0 \<and> \<not> (prev_input s1 AND BTN_A \<noteq> 0)
         then s1\<lparr>ball_state := 1,
                 ball_vx := word_of_int BALL_SPEED_X,
                 ball_vy := word_of_int (- BALL_SPEED_Y)\<rparr>
         else s1)"

text \<open>\<^verbatim>\<open>ball_x += ball_vx; ball_y += ball_vy;\<close>\<close>

definition move_ball :: "game \<Rightarrow> game" where
  "move_ball s =
     s\<lparr>ball_x := word_of_int (uint (ball_x s) + sint (ball_vx s)),
       ball_y := word_of_int (uint (ball_y s) + sint (ball_vy s))\<rparr>"

text \<open>The tests of the left and of the right wall, and the \<^verbatim>\<open>if\<close>/\<^verbatim>\<open>else if\<close> on them.\<close>

definition left_wall_hit :: "game \<Rightarrow> bool" where
  "left_wall_hit s \<longleftrightarrow> ball_x s = 0"

definition right_wall_hit :: "game \<Rightarrow> bool" where
  "right_wall_hit s \<longleftrightarrow> \<not> left_wall_hit s \<and> uint (ball_x s) + BALL_SIZE \<ge> SCREEN_WIDTH"

definition side_walls :: "game \<Rightarrow> game" where
  "side_walls s =
     (if left_wall_hit s then
        s\<lparr>ball_vx := word_of_int (- sint (ball_vx s)), ball_x := 1\<rparr>
      else if right_wall_hit s then
        s\<lparr>ball_vx := word_of_int (- sint (ball_vx s)),
          ball_x := word_of_int (SCREEN_WIDTH - BALL_SIZE - 1)\<rparr>
      else s)"

text \<open>The top wall, and the block that runs when the ball is lost at the bottom.\<close>

definition top_wall :: "game \<Rightarrow> game" where
  "top_wall s = s\<lparr>ball_vy := word_of_int (- sint (ball_vy s)), ball_y := 8\<rparr>"

definition ball_lost :: "game \<Rightarrow> game" where
  "ball_lost s =
     s\<lparr>lives := word_of_int (uint (lives s) - 1),
       ball_state := 0,
       ball_x := word_of_int ((SCREEN_WIDTH - BALL_SIZE) div 2),
       ball_y := word_of_int (PADDLE_Y - BALL_SIZE - 1),
       ball_vx := 0,
       ball_vy := 0\<rparr>"

text \<open>The paddle collision: the vertical band, the horizontal overlap, and the block.\<close>

definition paddle_band :: "game \<Rightarrow> bool" where
  "paddle_band s \<longleftrightarrow>
     uint (ball_y s) \<ge> PADDLE_Y - BALL_SIZE \<and> uint (ball_y s) < PADDLE_Y + PADDLE_HEIGHT"

definition paddle_overlap_x :: "game \<Rightarrow> bool" where
  "paddle_overlap_x s \<longleftrightarrow>
     uint (ball_x s) + BALL_SIZE > uint (paddle_x s) \<and>
     uint (paddle_x s) + PADDLE_WIDTH > uint (ball_x s)"

definition paddle_collision :: "game \<Rightarrow> game" where
  "paddle_collision s =
     (if paddle_band s then
        (if paddle_overlap_x s then
           (if uint (ball_y s) < PADDLE_Y then
              (let s1 = s\<lparr>ball_y := word_of_int (PADDLE_Y - BALL_SIZE - 1)\<rparr>;
                   s2 = (if sint (ball_vy s1) > 0
                         then s1\<lparr>ball_vy := word_of_int (- sint (ball_vy s1))\<rparr> else s1)
               in if ball_vx s2 = 0 then s2\<lparr>ball_vx := word_of_int BALL_SPEED_X\<rparr> else s2)
            else s)
         else s)
      else s)"

text \<open>
  The brick collision. \<open>hit_brick idx s\<close> is the block after the three \<^verbatim>\<open>continue\<close>
  tests; \<open>brick_loop idx s\<close> is the \<^verbatim>\<open>for\<close> loop from \<open>idx\<close> on, with its \<^verbatim>\<open>break\<close>
  (the counter stays below 48 and is a \<open>nat\<close>); \<open>brick_area\<close> is the negation of the
  test that returns before the loop.
\<close>

definition hit_brick :: "nat \<Rightarrow> game \<Rightarrow> game" where
  "hit_brick idx s =
     s\<lparr>bricks := (bricks s)[idx := (bricks s ! idx)\<lparr>brick_active := 0\<rparr>],
       ball_vy := word_of_int (- sint (ball_vy s)),
       score := word_of_int (uint (score s) + 1),
       bricks_left := word_of_int (uint (bricks_left s) - 1)\<rparr>"

function brick_loop :: "nat \<Rightarrow> game \<Rightarrow> game" where
  "brick_loop idx s =
     (if int idx < TOTAL_BRICKS then
        (if brick_active (bricks s ! idx) = 0 then brick_loop (idx + 1) s
         else if uint (ball_x s) + BALL_SIZE \<le> uint (brick_x (bricks s ! idx)) \<or>
                 uint (brick_x (bricks s ! idx)) + BRICK_WIDTH \<le> uint (ball_x s)
           then brick_loop (idx + 1) s
         else if uint (ball_y s) + BALL_SIZE \<le> uint (brick_y (bricks s ! idx)) \<or>
                 uint (brick_y (bricks s ! idx)) + BRICK_HEIGHT \<le> uint (ball_y s)
           then brick_loop (idx + 1) s
         else hit_brick idx s)
      else s)"
  by pat_completeness auto
termination
  by (relation "measure (\<lambda>(idx, s). 48 - idx)") auto

declare brick_loop.simps [simp del]

definition brick_area :: "game \<Rightarrow> bool" where
  "brick_area s \<longleftrightarrow>
     \<not> (uint (ball_y s) < BRICK_START_Y \<or>
        uint (ball_y s) \<ge> BRICK_START_Y + (BRICK_ROWS * BRICK_SPACING_Y) + BRICK_HEIGHT)"

definition brick_collision :: "game \<Rightarrow> game" where
  "brick_collision s = (if \<not> brick_area s then s else brick_loop 0 s)"

definition update_ball :: "game \<Rightarrow> game" where
  "update_ball s =
     (if ball_state s = 0 then ball_on_paddle s
      else
        (let s1 = side_walls (move_ball s) in
         if uint (ball_y s1) < 8 then brick_collision (paddle_collision (top_wall s1))
         else if uint (ball_y s1) \<ge> SCREEN_HEIGHT - 2 then ball_lost s1
         else brick_collision (paddle_collision s1)))"

subsection \<open>The frame loop\<close>

definition update_game :: "game \<Rightarrow> game" where
  "update_game s = update_ball (update_paddle s)"

text \<open>
  One pass of the loop of \<^verbatim>\<open>main\<close>, as far as the globals go: \<^verbatim>\<open>read_input\<close>,
  \<^verbatim>\<open>update_game\<close>, and the frame counter. \<open>run\<close> is the loop over the values read
  from the game pad, one per frame, and \<open>start\<close> the state in which the loop begins.
\<close>

definition frame :: "uint8_t \<Rightarrow> game \<Rightarrow> game" where
  "frame GAMEPAD1 s =
     (let s1 = update_game (read_input GAMEPAD1 s)
      in s1\<lparr>frame_count := word_of_int (uint (frame_count s1) + 1)\<rparr>)"

fun run :: "uint8_t list \<Rightarrow> game \<Rightarrow> game" where
  "run [] s = s"
| "run (p # ps) s = run ps (frame p s)"

definition start :: game where
  "start = init_game power_on"

subsection \<open>Lives display\<close>

text \<open>
  A call of \<^verbatim>\<open>draw_rect\<close> is the tuple of its arguments; \<^verbatim>\<open>draw_hud\<close> returns its calls
  in order. The counter \<^verbatim>\<open>i\<close> stays below \<^verbatim>\<open>lives\<close>, at most 255, and never wraps.
\<close>

type_synonym rect = "uint8_t \<times> uint8_t \<times> uint8_t \<times> uint8_t \<times> uint8_t"

function draw_hud_loop :: "nat \<Rightarrow> uint8_t \<Rightarrow> uint8_t \<Rightarrow> game \<Rightarrow> rect list" where
  "draw_hud_loop i x_pos color s =
     (if int i < uint (lives s)
      then (x_pos, 2, 3, 3, color) # draw_hud_loop (i + 1) (word_of_int (uint x_pos + 5)) color s
      else [])"
  by pat_completeness auto
termination
  by (relation "measure (\<lambda>(i, x_pos, color, s). nat (uint (lives s) - int i))") auto

declare draw_hud_loop.simps [simp del]

definition draw_hud :: "game \<Rightarrow> rect list" where
  "draw_hud s = draw_hud_loop 0 2 (HUE_RED OR SAT_FULL OR 5) s"

subsection \<open>Notions used in the statements\<close>

text \<open>
  The state of an in-flight ball after the position update and the walls, when the ball
  is not lost (lines 275 to 293 of \<^verbatim>\<open>update_ball\<close>), and the state in which the brick
  collision starts.
\<close>

definition after_walls :: "game \<Rightarrow> game" where
  "after_walls s =
     (let s1 = side_walls (move_ball s) in if uint (ball_y s1) < 8 then top_wall s1 else s1)"

definition before_bricks :: "game \<Rightarrow> game" where
  "before_bricks s = paddle_collision (after_walls s)"

text \<open>
  The rectangle of the ball and the rectangle of a brick overlap on both axes; a brick
  the loop stops at; and the first one in the order of the array.
\<close>

definition brick_overlap :: "game \<Rightarrow> Brick \<Rightarrow> bool" where
  "brick_overlap s b \<longleftrightarrow>
     \<not> (uint (ball_x s) + BALL_SIZE \<le> uint (brick_x b) \<or>
        uint (brick_x b) + BRICK_WIDTH \<le> uint (ball_x s)) \<and>
     \<not> (uint (ball_y s) + BALL_SIZE \<le> uint (brick_y b) \<or>
        uint (brick_y b) + BRICK_HEIGHT \<le> uint (ball_y s))"

definition brick_hit :: "game \<Rightarrow> Brick \<Rightarrow> bool" where
  "brick_hit s b \<longleftrightarrow> brick_active b \<noteq> 0 \<and> brick_overlap s b"

definition first_hit :: "game \<Rightarrow> nat \<Rightarrow> bool" where
  "first_hit s i \<longleftrightarrow>
     i < length (bricks s) \<and> brick_hit s (bricks s ! i) \<and>
     list_all (\<lambda>b. \<not> brick_hit s b) (take i (bricks s))"

text \<open>The number of bricks whose flag is set, and the invariant of the counter.\<close>

definition active_bricks :: "game \<Rightarrow> nat" where
  "active_bricks s = length (filter (\<lambda>b. brick_active b \<noteq> 0) (bricks s))"

definition counter_inv :: "game \<Rightarrow> bool" where
  "counter_inv s \<longleftrightarrow> uint (bricks_left s) = int (active_bricks s)"

definition paddle_inv :: "game \<Rightarrow> bool" where
  "paddle_inv s \<longleftrightarrow>
     0 \<le> uint (paddle_x s) \<and> uint (paddle_x s) \<le> SCREEN_WIDTH - PADDLE_WIDTH"

text \<open>
  Where a paddle that starts at \<open>x0\<close> stops when RIGHT is held: a step is taken only to
  a position below \<^verbatim>\<open>SCREEN_WIDTH - PADDLE_WIDTH\<close>.
\<close>

definition paddle_rest :: "int \<Rightarrow> int" where
  "paddle_rest x0 =
     (if x0 + PADDLE_SPEED \<ge> SCREEN_WIDTH - PADDLE_WIDTH then x0
      else if even x0 then SCREEN_WIDTH - PADDLE_WIDTH - 2
      else SCREEN_WIDTH - PADDLE_WIDTH - 1)"

text \<open>
  What every state of the frame loop satisfies: the paddle is at an even position, and a
  ball in flight moves by two pixels a frame, to the left only from an even position.
\<close>

definition flight_inv :: "game \<Rightarrow> bool" where
  "flight_inv s \<longleftrightarrow>
     even (uint (paddle_x s)) \<and> uint (paddle_x s) \<le> 102 \<and>
     (ball_state s = 0 \<or>
      ball_state s = 1 \<and>
      (ball_vx s = 2 \<and> uint (ball_x s) \<le> 124 \<or>
       ball_vx s = - 2 \<and> even (uint (ball_x s)) \<and>
       2 \<le> uint (ball_x s) \<and> uint (ball_x s) \<le> 124))"

text \<open>The number of frames of a run in which a ball on the paddle is launched.\<close>

fun launches :: "uint8_t list \<Rightarrow> game \<Rightarrow> nat" where
  "launches [] s = 0"
| "launches (p # ps) s =
     (if ball_state s = 0 \<and> ball_state (frame p s) \<noteq> 0 then 1 else 0) +
     launches ps (frame p s)"

text \<open>
  The ball update without the test on \<open>brick_area\<close>: it differs from \<open>update_ball\<close>
  only in that the loop over the bricks always runs.
\<close>

definition update_ball_scan_all :: "game \<Rightarrow> game" where
  "update_ball_scan_all s =
     (if ball_state s = 0 then ball_on_paddle s
      else
        (let s1 = side_walls (move_ball s) in
         if uint (ball_y s1) < 8 then brick_loop 0 (paddle_collision (top_wall s1))
         else if uint (ball_y s1) \<ge> SCREEN_HEIGHT - 2 then ball_lost s1
         else brick_loop 0 (paddle_collision s1)))"

text \<open>
  The loop over the bricks as a recursion over the array: \<open>scan_bricks bx by bs i\<close> is the
  index of the first brick of \<open>bs\<close> (whose head has index \<open>i\<close>) that the loop stops at,
  for a ball at \<open>(bx, by)\<close>.
\<close>

fun scan_bricks :: "int \<Rightarrow> int \<Rightarrow> Brick list \<Rightarrow> nat \<Rightarrow> nat option" where
  "scan_bricks bx by [] i = None"
| "scan_bricks bx by (b # bs) i =
     (if brick_active b = 0 then scan_bricks bx by bs (Suc i)
      else if bx + BALL_SIZE \<le> uint (brick_x b) then scan_bricks bx by bs (Suc i)
      else if uint (brick_x b) + BRICK_WIDTH \<le> bx then scan_bricks bx by bs (Suc i)
      else if by + BALL_SIZE \<le> uint (brick_y b) then scan_bricks bx by bs (Suc i)
      else if uint (brick_y b) + BRICK_HEIGHT \<le> by then scan_bricks bx by bs (Suc i)
      else Some i)"

text \<open>
  The array that \<^verbatim>\<open>init_bricks\<close> builds, with the bricks at the indices \<open>dead\<close> destroyed.
\<close>

definition grid :: "nat list \<Rightarrow> Brick list" where
  "grid dead =
     map (\<lambda>idx. \<lparr>brick_x = of_nat (idx mod 8 * 16 + 4),
                  brick_y = of_nat (idx div 8 * 7 + 10),
                  brick_color = of_nat (idx div 8 + 1),
                  brick_active = (if idx \<in> set dead then 0 else 1)\<rparr>) [0..<48]"

text \<open>
  Runs of the loop, as the values read from the game pad (\<open>0xFF\<close>: nothing pressed,
  \<open>0xFE\<close>: RIGHT, \<open>0xFD\<close>: LEFT, \<open>0xEF\<close>: A), and for each the state that \<^verbatim>\<open>update_ball\<close>
  receives in the frame after the run, with nothing pressed.
  \<^item> \<open>bounce_pads\<close>: the ball is launched and the paddle stays; the ball comes back from
    brick 47 and is about to bounce on the paddle.
  \<^item> \<open>left_pads\<close>: the same, until the ball is about to reach the left wall.
  \<^item> \<open>miss_pads\<close>: the ball is launched and the paddle moves left to 38; the ball comes
    back from brick 47 and is at \<open>y = 113\<close> just right of the paddle, at \<open>y = 115\<close> over it.
  \<^item> \<open>fall_pads\<close>: the same, until the ball is about to be lost.
  \<^item> \<open>tie_pads\<close>: the paddle moves left to 10 and the ball is launched; it is about to
    reach the bricks 44 and 45 at once.
  \<^item> \<open>top_pads\<close>: four launches; after 35 bricks and three lost balls the ball is about
    to bounce off the top wall next to brick 3, which is still there.
  \<^item> \<open>lost_pads\<close>: the same, until the ball is about to be lost with no life left.
\<close>

definition bounce_pads :: "uint8_t list" where
  "bounce_pads = [0xEF] @ replicate 62 0xFF"

definition bounce_frame :: game where
  "bounce_frame = update_paddle (read_input 0xFF (run bounce_pads start))"

definition left_pads :: "uint8_t list" where
  "left_pads = bounce_pads @ replicate 31 0xFF"

definition left_frame :: game where
  "left_frame = update_paddle (read_input 0xFF (run left_pads start))"

definition miss_pads :: "uint8_t list" where
  "miss_pads = [0xEF] @ replicate 7 0xFD @ replicate 56 0xFF"

definition miss_frame :: game where
  "miss_frame = update_paddle (read_input 0xFF (run miss_pads start))"

definition fall_pads :: "uint8_t list" where
  "fall_pads = miss_pads @ replicate 6 0xFF"

definition fall_frame :: game where
  "fall_frame = update_paddle (read_input 0xFF (run fall_pads start))"

definition tie_pads :: "uint8_t list" where
  "tie_pads = replicate 21 0xFD @ [0xEF] @ replicate 30 0xFF"

definition tie_frame :: game where
  "tie_frame = update_paddle (read_input 0xFF (run tie_pads start))"

definition top_pads :: "uint8_t list" where
  "top_pads =
     replicate 22 0xFE @ [0xEF] @ replicate 70 0xFF @ [0xFE] @ [0xEF] @
     replicate 76 0xFF @ [0xEF] @ replicate 214 0xFF @ replicate 2 0xFD @ [0xEF] @ replicate 97 0xFF"

definition top_frame :: game where
  "top_frame = update_paddle (read_input 0xFF (run top_pads start))"

definition lost_pads :: "uint8_t list" where
  "lost_pads = top_pads @ replicate 84 0xFF"

definition lost_frame :: game where
  "lost_frame = update_paddle (read_input 0xFF (run lost_pads start))"

subsection \<open>Stores of one byte\<close>

lemma uint_add2: "uint (a + 2 :: 8 word) = (uint a + 2) mod 256"
  by (simp add: uint_word_ariths)

lemma uint_sub2: "uint (a - 2 :: 8 word) = (uint a - 2) mod 256"
  by (simp add: uint_word_ariths)

subsection \<open>The loop over the bricks\<close>

lemma brick_loop_done: "\<not> idx < 48 \<Longrightarrow> brick_loop idx s = s"
  by (subst brick_loop.simps) simp

lemma brick_loop_skip:
  "idx < 48 \<Longrightarrow> \<not> brick_hit s (bricks s ! idx) \<Longrightarrow>
   brick_loop idx s = brick_loop (Suc idx) s"
  by (subst brick_loop.simps) (auto simp: brick_hit_def brick_overlap_def)

lemma brick_loop_hit:
  "idx < 48 \<Longrightarrow> brick_hit s (bricks s ! idx) \<Longrightarrow> brick_loop idx s = hit_brick idx s"
  by (subst brick_loop.simps) (auto simp: brick_hit_def brick_overlap_def)

lemma brick_loop_cases:
  "brick_loop idx s = s \<or>
   (\<exists>i. idx \<le> i \<and> i < 48 \<and> brick_hit s (bricks s ! i) \<and> brick_loop idx s = hit_brick i s)"
proof (induction idx s rule: brick_loop.induct)
  case (1 idx s)
  show ?case
  proof (cases "idx < 48")
    case False
    then show ?thesis by (simp add: brick_loop_done)
  next
    case inside: True
    show ?thesis
    proof (cases "brick_hit s (bricks s ! idx)")
      case True
      with inside show ?thesis by (auto simp: brick_loop_hit)
    next
      case False
      with inside have "brick_loop idx s = brick_loop (idx + 1) s"
        by (simp add: brick_loop_skip)
      moreover have "brick_loop (idx + 1) s = s \<or>
          (\<exists>i. idx + 1 \<le> i \<and> i < 48 \<and> brick_hit s (bricks s ! i) \<and>
               brick_loop (idx + 1) s = hit_brick i s)"
        using False inside "1.IH" by (auto simp: brick_hit_def brick_overlap_def)
      ultimately show ?thesis
        by (metis Suc_eq_plus1 Suc_leD)
    qed
  qed
qed

lemma brick_loop_keeps:
  "paddle_x (brick_loop idx s) = paddle_x s \<and>
   ball_x (brick_loop idx s) = ball_x s \<and>
   ball_y (brick_loop idx s) = ball_y s \<and>
   ball_vx (brick_loop idx s) = ball_vx s \<and>
   ball_state (brick_loop idx s) = ball_state s \<and>
   input_buffer (brick_loop idx s) = input_buffer s \<and>
   prev_input (brick_loop idx s) = prev_input s \<and>
   lives (brick_loop idx s) = lives s \<and>
   frame_count (brick_loop idx s) = frame_count s \<and>
   length (bricks (brick_loop idx s)) = length (bricks s)"
  using brick_loop_cases [of idx s] by (auto simp: hit_brick_def)

lemma brick_collision_keeps:
  "paddle_x (brick_collision s) = paddle_x s \<and>
   ball_x (brick_collision s) = ball_x s \<and>
   ball_y (brick_collision s) = ball_y s \<and>
   ball_vx (brick_collision s) = ball_vx s \<and>
   ball_state (brick_collision s) = ball_state s \<and>
   input_buffer (brick_collision s) = input_buffer s \<and>
   prev_input (brick_collision s) = prev_input s \<and>
   lives (brick_collision s) = lives s \<and>
   frame_count (brick_collision s) = frame_count s \<and>
   length (bricks (brick_collision s)) = length (bricks s)"
  by (simp add: brick_collision_def brick_loop_keeps)

lemma paddle_collision_keeps:
  "paddle_x (paddle_collision s) = paddle_x s \<and>
   ball_x (paddle_collision s) = ball_x s \<and>
   ball_state (paddle_collision s) = ball_state s \<and>
   input_buffer (paddle_collision s) = input_buffer s \<and>
   prev_input (paddle_collision s) = prev_input s \<and>
   lives (paddle_collision s) = lives s \<and>
   score (paddle_collision s) = score s \<and>
   bricks_left (paddle_collision s) = bricks_left s \<and>
   frame_count (paddle_collision s) = frame_count s \<and>
   bricks (paddle_collision s) = bricks s"
  by (simp add: paddle_collision_def Let_def)

lemma after_walls_keeps:
  "paddle_x (after_walls s) = paddle_x s \<and>
   ball_state (after_walls s) = ball_state s \<and>
   input_buffer (after_walls s) = input_buffer s \<and>
   prev_input (after_walls s) = prev_input s \<and>
   lives (after_walls s) = lives s \<and>
   score (after_walls s) = score s \<and>
   bricks_left (after_walls s) = bricks_left s \<and>
   frame_count (after_walls s) = frame_count s \<and>
   bricks (after_walls s) = bricks s"
  by (simp add: after_walls_def side_walls_def move_ball_def top_wall_def Let_def)

lemma update_ball_active:
  "ball_state s \<noteq> 0 \<Longrightarrow>
   update_ball s =
     (if uint (ball_y (after_walls s)) \<ge> SCREEN_HEIGHT - 2
      then ball_lost (side_walls (move_ball s))
      else brick_collision (before_bricks s))"
  by (simp add: update_ball_def after_walls_def before_bricks_def Let_def top_wall_def)

lemma update_ball_keeps:
  "paddle_x (update_ball s) = paddle_x s \<and>
   input_buffer (update_ball s) = input_buffer s \<and>
   prev_input (update_ball s) = prev_input s \<and>
   frame_count (update_ball s) = frame_count s \<and>
   length (bricks (update_ball s)) = length (bricks s)"
proof (cases "ball_state s = 0")
  case True
  then show ?thesis by (simp add: update_ball_def ball_on_paddle_def Let_def)
next
  case False
  then show ?thesis
    by (simp add: update_ball_active ball_lost_def side_walls_def move_ball_def
        before_bricks_def brick_collision_keeps paddle_collision_keeps after_walls_keeps)
qed

lemma update_paddle_keeps:
  "ball_x (update_paddle s) = ball_x s \<and>
   ball_y (update_paddle s) = ball_y s \<and>
   ball_vx (update_paddle s) = ball_vx s \<and>
   ball_vy (update_paddle s) = ball_vy s \<and>
   ball_state (update_paddle s) = ball_state s \<and>
   input_buffer (update_paddle s) = input_buffer s \<and>
   prev_input (update_paddle s) = prev_input s \<and>
   lives (update_paddle s) = lives s \<and>
   score (update_paddle s) = score s \<and>
   bricks_left (update_paddle s) = bricks_left s \<and>
   frame_count (update_paddle s) = frame_count s \<and>
   bricks (update_paddle s) = bricks s"
  by (simp add: update_paddle_def Let_def)

lemma frame_keeps:
  "paddle_x (frame p s) = paddle_x (update_paddle (read_input p s)) \<and>
   input_buffer (frame p s) = p XOR 0xFF \<and>
   prev_input (frame p s) = input_buffer s \<and>
   length (bricks (frame p s)) = length (bricks s)"
  by (simp add: frame_def update_game_def Let_def update_ball_keeps update_paddle_keeps
      read_input_def)

subsection \<open>The start of the loop\<close>

lemma start_eq:
  "start =
     \<lparr>frame_count = 0, paddle_x = 52, ball_x = 62, ball_y = 111, ball_vx = 0, ball_vy = 0,
      ball_state = 0, input_buffer = 0, prev_input = 0, score = 0, lives = 3, bricks_left = 48,
      bricks = grid []\<rparr>"
  by code_simp

lemma start_paddle_x: "paddle_x start = 52"
  by (simp add: start_eq)

lemma start_length: "length (bricks start) = 48"
  by (simp add: start_eq grid_def)

lemma init_bricks_loop_keeps:
  "paddle_x (init_bricks_loop idx s) = paddle_x s"
proof (induction idx s rule: init_bricks_loop.induct)
  case (1 idx s)
  show ?case
  proof (cases "int idx < TOTAL_BRICKS")
    case True
    then show ?thesis
      using "1.IH" by (subst init_bricks_loop.simps) (simp add: Let_def)
  next
    case False
    then show ?thesis by (subst init_bricks_loop.simps) simp
  qed
qed

lemma init_game_paddle_x: "paddle_x (init_game s0) = 52"
  by (simp add: init_game_def init_bricks_def init_bricks_loop_keeps)

subsection \<open>The paddle\<close>

lemma update_paddle_inv: "paddle_inv s \<Longrightarrow> paddle_inv (update_paddle s)"
  by (auto simp add: paddle_inv_def update_paddle_def Let_def uint_add2 uint_sub2
      split: if_splits)

lemma frame_paddle_inv: "paddle_inv s \<Longrightarrow> paddle_inv (frame p s)"
proof -
  assume "paddle_inv s"
  then have "paddle_inv (read_input p s)"
    by (simp add: paddle_inv_def read_input_def)
  then have "paddle_inv (update_paddle (read_input p s))"
    by (rule update_paddle_inv)
  then show ?thesis
    by (simp add: paddle_inv_def frame_keeps)
qed

lemma run_paddle_inv: "paddle_inv s \<Longrightarrow> paddle_inv (run pads s)"
  by (induction pads arbitrary: s) (simp_all add: frame_paddle_inv)

lemma start_paddle_inv: "paddle_inv start"
  by (simp add: paddle_inv_def start_paddle_x)

lemma right_step:
  assumes "paddle_inv s" "(p XOR 0xFF) AND BTN_RIGHT \<noteq> 0" "(p XOR 0xFF) AND BTN_LEFT = 0"
  shows "uint (paddle_x (frame p s)) =
           (if uint (paddle_x s) + PADDLE_SPEED < SCREEN_WIDTH - PADDLE_WIDTH
            then uint (paddle_x s) + PADDLE_SPEED else uint (paddle_x s))"
  using assms
  by (simp add: frame_keeps paddle_inv_def update_paddle_def read_input_def Let_def uint_add2)

lemma paddle_rest_step:
  "0 \<le> x \<Longrightarrow> x \<le> 104 \<Longrightarrow>
   min ((if x + 2 < 104 then x + 2 else x) + 2 * n) (paddle_rest (if x + 2 < 104 then x + 2 else x)) =
   min (x + 2 * (n + 1)) (paddle_rest x)"  if "0 \<le> n" for x n :: int
  using that by (auto simp: paddle_rest_def min_def; presburger)

lemma hold_right_run:
  assumes "(p XOR 0xFF) AND BTN_RIGHT \<noteq> 0" "(p XOR 0xFF) AND BTN_LEFT = 0"
  shows "paddle_inv s \<Longrightarrow>
         uint (paddle_x (run (replicate N p) s)) =
           min (uint (paddle_x s) + 2 * int N) (paddle_rest (uint (paddle_x s)))"
proof (induction N arbitrary: s)
  case 0
  then show ?case by (auto simp: paddle_rest_def paddle_inv_def min_def)
next
  case (Suc N)
  let ?x = "uint (paddle_x s)"
  let ?x' = "if ?x + 2 < 104 then ?x + 2 else ?x"
  have step: "uint (paddle_x (frame p s)) = ?x'"
    using right_step [OF Suc.prems assms] by simp
  have "uint (paddle_x (run (replicate (Suc N) p) s)) =
          min (?x' + 2 * int N) (paddle_rest ?x')"
    using Suc.IH [OF frame_paddle_inv [OF Suc.prems]] step by simp
  also have "\<dots> = min (?x + 2 * (int N + 1)) (paddle_rest ?x)"
    using Suc.prems by (intro paddle_rest_step) (simp_all add: paddle_inv_def)
  finally show ?case by (simp add: algebra_simps)
qed

subsection \<open>Claims on the paddle\<close>

text \<open>
  C8: the paddle invariant \<open>0 \<le> paddle_x \<le> SCREEN_WIDTH - PADDLE_WIDTH\<close> holds after
  \<^verbatim>\<open>init_game\<close>, \<^verbatim>\<open>update_paddle\<close> keeps it whatever the buttons are, and it holds
  after every frame of the loop.
\<close>

theorem paddle_inv_every_frame:
  "paddle_inv (init_game s0) \<and>
   (paddle_inv s \<longrightarrow> paddle_inv (update_paddle s)) \<and>
   paddle_inv (run pads start)"
  by (simp add: update_paddle_inv run_paddle_inv start_paddle_inv)
     (simp add: paddle_inv_def init_game_paddle_x)

theorem paddle_inv_every_frame_witness:
  "paddle_inv (start\<lparr>paddle_x := 102, input_buffer := 3\<rparr>) \<and>
   paddle_inv (update_paddle (start\<lparr>paddle_x := 102, input_buffer := 3\<rparr>)) \<and>
   paddle_x (update_paddle (start\<lparr>paddle_x := 102, input_buffer := 3\<rparr>)) = 100"
proof -
  have h: "paddle_inv (start\<lparr>paddle_x := 102, input_buffer := 3\<rparr>)"
    by (simp add: paddle_inv_def)
  have "paddle_x (update_paddle (start\<lparr>paddle_x := 102, input_buffer := 3\<rparr>)) = 100"
    by (simp add: update_paddle_def)
  with h paddle_inv_every_frame [of power_on "start\<lparr>paddle_x := 102, input_buffer := 3\<rparr>" "[]"]
  show ?thesis by simp
qed

text \<open>
  C2, as stated: from the position \<open>x0\<close>, \<open>N\<close> frames with only RIGHT held bring the
  paddle to \<open>min (x0 + N * PADDLE_SPEED) (SCREEN_WIDTH - PADDLE_WIDTH)\<close>. It fails from
  the initial position 52 with \<open>N = 26\<close>: the step from 102 to 104 is not taken, since
  \<^verbatim>\<open>update_paddle\<close> moves only to a position strictly below 104.
\<close>

theorem hold_right_counterexample:
  "paddle_inv start \<and>
   uint (paddle_x (run (replicate 26 0xFE) start)) \<noteq>
     min (uint (paddle_x start) + 26 * PADDLE_SPEED) (SCREEN_WIDTH - PADDLE_WIDTH) \<and>
   uint (paddle_x (run (replicate 26 0xFE) start)) = 102"
  by code_simp

text \<open>
  C2, amended: from a position \<open>x0\<close> within the paddle invariant, \<open>N\<close> frames with RIGHT
  held and LEFT released bring the paddle to \<open>min (x0 + N * PADDLE_SPEED) r\<close>, where
  \<open>r = paddle_rest x0\<close> is \<open>x0\<close> itself when \<open>x0 + PADDLE_SPEED \<ge> 104\<close>, and otherwise
  the largest position below 104 of the parity of \<open>x0\<close> (102 or 103).
\<close>

theorem hold_right_rest:
  assumes "paddle_inv s"
    and "(p XOR 0xFF) AND BTN_RIGHT \<noteq> 0"
    and "(p XOR 0xFF) AND BTN_LEFT = 0"
  shows "uint (paddle_x (run (replicate N p) s)) =
           min (uint (paddle_x s) + int N * PADDLE_SPEED) (paddle_rest (uint (paddle_x s)))"
  using hold_right_run [OF assms(2,3) assms(1), of N] by (simp add: mult.commute)

theorem hold_right_rest_witness:
  "paddle_inv start \<and> (0xFE XOR 0xFF) AND BTN_RIGHT \<noteq> 0 \<and> (0xFE XOR 0xFF) AND BTN_LEFT = 0 \<and>
   uint (paddle_x (run (replicate 30 0xFE) start)) = 102 \<and>
   min (uint (paddle_x start) + int 30 * PADDLE_SPEED) (paddle_rest (uint (paddle_x start))) = 102"
proof -
  have h1: "paddle_inv start" by (rule start_paddle_inv)
  have h2: "(0xFE XOR 0xFF) AND BTN_RIGHT \<noteq> 0" by simp
  have h3: "(0xFE XOR 0xFF) AND BTN_LEFT = 0" by simp
  have "min (uint (paddle_x start) + int 30 * PADDLE_SPEED) (paddle_rest (uint (paddle_x start))) = 102"
    by (simp add: start_paddle_x paddle_rest_def)
  with h1 h2 h3 hold_right_rest [OF h1 h2 h3, of 30] show ?thesis by simp
qed

subsection \<open>Claims on the loss of the ball and on the paddle collision\<close>

text \<open>
  C3: in a frame in which the ball is in flight and its \<open>y\<close>, after the position update
  and the walls, is at least \<open>SCREEN_HEIGHT - 2\<close>, \<^verbatim>\<open>update_ball\<close> decrements \<open>lives\<close>,
  puts the ball on the paddle at the launch position with velocity zero, and changes
  nothing else: the score, the bricks and their counter are as before, so neither the
  paddle collision nor the brick collision has run.
\<close>

theorem ball_lost_frame:
  assumes "ball_state s \<noteq> 0"
    and "uint (ball_y (after_walls s)) \<ge> SCREEN_HEIGHT - 2"
  shows "update_ball s =
           s\<lparr>lives := lives s - 1,
             ball_state := 0,
             ball_x := word_of_int ((SCREEN_WIDTH - BALL_SIZE) div 2),
             ball_y := word_of_int (PADDLE_Y - BALL_SIZE - 1),
             ball_vx := 0,
             ball_vy := 0\<rparr> \<and>
         score (update_ball s) = score s \<and>
         bricks (update_ball s) = bricks s \<and>
         bricks_left (update_ball s) = bricks_left s"
  using assms
  by (simp add: update_ball_active ball_lost_def side_walls_def move_ball_def)

text \<open>
  C6, amended: in a frame in which the ball is in flight and is not lost, the paddle
  collision runs on the state \<open>after_walls s\<close>. It repositions the ball to
  \<open>PADDLE_Y - BALL_SIZE - 1\<close>, negates \<open>vy\<close> exactly when \<open>vy > 0\<close> and sets \<open>vx\<close> to
  \<open>BALL_SPEED_X\<close> exactly when \<open>vx = 0\<close>, provided the ball's \<open>y\<close> is in the band of the
  paddle, the ball overlaps the paddle horizontally, and the ball's \<open>y\<close> is above the top
  of the paddle (\<open>y < PADDLE_Y\<close>); when one of the three conditions fails it changes
  nothing.
\<close>

theorem paddle_collision_effect:
  "(ball_state s \<noteq> 0 \<and> \<not> uint (ball_y (after_walls s)) \<ge> SCREEN_HEIGHT - 2 \<longrightarrow>
      update_ball s = brick_collision (paddle_collision (after_walls s))) \<and>
   (paddle_band t \<and> paddle_overlap_x t \<and> uint (ball_y t) < PADDLE_Y \<longrightarrow>
      paddle_collision t =
        t\<lparr>ball_y := word_of_int (PADDLE_Y - BALL_SIZE - 1),
          ball_vy := (if sint (ball_vy t) > 0 then - ball_vy t else ball_vy t),
          ball_vx := (if ball_vx t = 0 then word_of_int BALL_SPEED_X else ball_vx t)\<rparr>) \<and>
   (\<not> (paddle_band t \<and> paddle_overlap_x t \<and> uint (ball_y t) < PADDLE_Y) \<longrightarrow>
      paddle_collision t = t)"
  by (auto simp add: update_ball_active before_bricks_def paddle_collision_def Let_def)

subsection \<open>The launch\<close>

lemma frame_on_paddle:
  assumes "ball_state s = 0"
  shows "ball_state (frame p s) =
           (if (p XOR 0xFF) AND BTN_A \<noteq> 0 \<and> input_buffer s AND BTN_A = 0 then 1 else 0)"
    and "ball_state (frame p s) \<noteq> 0 \<Longrightarrow>
           ball_vx (frame p s) = 2 \<and> ball_vy (frame p s) = - 2"
    and "lives (frame p s) = lives s"
  using assms
  by (simp_all add: frame_def update_game_def update_ball_def ball_on_paddle_def
      update_paddle_keeps read_input_def Let_def split: if_splits)

lemma held_no_launch:
  "input_buffer s AND BTN_A \<noteq> 0 \<Longrightarrow> \<forall>q \<in> set pads. (q XOR 0xFF) AND BTN_A \<noteq> 0 \<Longrightarrow>
   launches pads s = 0"
proof (induction pads arbitrary: s)
  case Nil
  then show ?case by simp
next
  case (Cons q pads)
  have held: "input_buffer (frame q s) AND BTN_A \<noteq> 0"
    using Cons.prems(2) by (simp add: frame_keeps)
  have "\<not> (ball_state s = 0 \<and> ball_state (frame q s) \<noteq> 0)"
    using Cons.prems(1) frame_on_paddle(1) [of s q] by auto
  moreover have "launches pads (frame q s) = 0"
    using Cons.IH [OF held] Cons.prems(2) by simp
  ultimately show ?case by simp
qed

text \<open>
  C4: a ball on the paddle is in flight after a frame if and only if the launch button
  is pressed in the input of this frame and was not pressed in the input of the frame
  before; the launch sets the velocity to \<open>(BALL_SPEED_X, - BALL_SPEED_Y)\<close>; and a run of
  frames that all hold the button, from a ball on the paddle and a released button,
  launches exactly once.
\<close>

theorem launch_on_rising_edge:
  "(ball_state s = 0 \<longrightarrow>
      (ball_state (frame p s) \<noteq> 0 \<longleftrightarrow>
         (p XOR 0xFF) AND BTN_A \<noteq> 0 \<and> input_buffer s AND BTN_A = 0)) \<and>
   (ball_state s = 0 \<and> ball_state (frame p s) \<noteq> 0 \<longrightarrow>
      ball_state (frame p s) = 1 \<and>
      sint (ball_vx (frame p s)) = BALL_SPEED_X \<and>
      sint (ball_vy (frame p s)) = - BALL_SPEED_Y) \<and>
   (ball_state s = 0 \<and> input_buffer s AND BTN_A = 0 \<and> pads \<noteq> [] \<and>
    (\<forall>q \<in> set pads. (q XOR 0xFF) AND BTN_A \<noteq> 0) \<longrightarrow>
      launches pads s = 1)"
proof (intro conjI impI)
  assume "ball_state s = 0"
  then show "ball_state (frame p s) \<noteq> 0 \<longleftrightarrow>
         (p XOR 0xFF) AND BTN_A \<noteq> 0 \<and> input_buffer s AND BTN_A = 0"
    by (simp add: frame_on_paddle(1))
next
  assume a: "ball_state s = 0 \<and> ball_state (frame p s) \<noteq> 0"
  then show "ball_state (frame p s) = 1"
    using frame_on_paddle(1) [of s p] by (auto split: if_splits)
  from a have "ball_vx (frame p s) = 2 \<and> ball_vy (frame p s) = - 2"
    using frame_on_paddle(2) [of s p] by simp
  then show "sint (ball_vx (frame p s)) = BALL_SPEED_X"
    and "sint (ball_vy (frame p s)) = - BALL_SPEED_Y"
    by simp_all
next
  assume a: "ball_state s = 0 \<and> input_buffer s AND BTN_A = 0 \<and> pads \<noteq> [] \<and>
    (\<forall>q \<in> set pads. (q XOR 0xFF) AND BTN_A \<noteq> 0)"
  then obtain q qs where pads: "pads = q # qs" by (cases pads) auto
  with a have pressed: "(q XOR 0xFF) AND BTN_A \<noteq> 0"
    and rest: "\<forall>r \<in> set qs. (r XOR 0xFF) AND BTN_A \<noteq> 0" by auto
  have "ball_state (frame q s) \<noteq> 0"
    using a pressed by (simp add: frame_on_paddle(1))
  moreover have "launches qs (frame q s) = 0"
    using pressed rest by (intro held_no_launch) (simp_all add: frame_keeps)
  ultimately show "launches pads s = 1"
    using a pads by simp
qed

theorem launch_on_rising_edge_witness:
  "ball_state start = 0 \<and> input_buffer start AND BTN_A = 0 \<and>
   (0xEF XOR 0xFF) AND BTN_A \<noteq> 0 \<and>
   ball_state (frame 0xEF start) = 1 \<and>
   sint (ball_vx (frame 0xEF start)) = BALL_SPEED_X \<and>
   sint (ball_vy (frame 0xEF start)) = - BALL_SPEED_Y \<and>
   launches [0xEF, 0xEF, 0xEF] start = 1"
proof -
  have h: "ball_state start = 0" "input_buffer start AND BTN_A = 0"
    by (simp_all add: start_eq)
  have p: "(0xEF XOR 0xFF) AND BTN_A \<noteq> 0" by simp
  have l: "[0xEF, 0xEF, 0xEF] \<noteq> ([] :: uint8_t list)"
    "\<forall>q \<in> set [0xEF, 0xEF, 0xEF]. (q XOR 0xFF) AND BTN_A \<noteq> 0" by simp_all
  from h p l launch_on_rising_edge [of start "0xEF" "[0xEF, 0xEF, 0xEF]"]
  show ?thesis by (simp del: launches.simps)
qed

subsection \<open>The lives\<close>

lemma draw_hud_loop_eq:
  "draw_hud_loop i x c s =
     map (\<lambda>k. (x + 5 * of_nat k, 2, 3, 3, c)) [0..<nat (uint (lives s) - int i)]"
proof (induction i x c s rule: draw_hud_loop.induct)
  case (1 i x c s)
  show ?case
  proof (cases "int i < uint (lives s)")
    case False
    then show ?thesis by (subst draw_hud_loop.simps) simp
  next
    case True
    then have n: "nat (uint (lives s) - int i) = Suc (nat (uint (lives s) - int (i + 1)))"
      by simp
    have "draw_hud_loop i x c s =
            (x, 2, 3, 3, c) # draw_hud_loop (i + 1) (x + 5) c s"
      using True by (subst draw_hud_loop.simps) simp
    also have "draw_hud_loop (i + 1) (x + 5) c s =
        map (\<lambda>k. (x + 5 + 5 * of_nat k, 2, 3, 3, c)) [0..<nat (uint (lives s) - int (i + 1))]"
      using "1.IH" [OF True] by simp
    also have "\<dots> = map (\<lambda>k. (x + 5 * of_nat k, 2, 3, 3, c))
                       (map Suc [0..<nat (uint (lives s) - int (i + 1))])"
      by (simp add: algebra_simps)
    finally show ?thesis
      unfolding n by (simp add: map_Suc_upt upt_conv_Cons del: upt_Suc)
  qed
qed

lemma draw_hud_eq:
  "draw_hud s =
     map (\<lambda>k. (2 + 5 * of_nat k, 2, 3, 3, HUE_RED OR SAT_FULL OR 5)) [0..<unat (lives s)]"
  by (simp add: draw_hud_def draw_hud_loop_eq)

lemma ball_lost_frame_aux:
  assumes "ball_state s \<noteq> 0"
    and "uint (ball_y (after_walls s)) \<ge> SCREEN_HEIGHT - 2"
  shows "lives (update_ball s) = lives s - 1" and "ball_state (update_ball s) = 0"
  using assms
  by (simp_all add: update_ball_active ball_lost_def side_walls_def move_ball_def)

text \<open>
  C10: \<open>lives\<close> is an 8-bit counter that is decremented without a test. A ball lost in a
  frame that starts with \<open>lives = 0\<close> leaves \<open>lives = 255\<close> and the ball on the paddle;
  \<^verbatim>\<open>draw_hud\<close> then draws 255 rectangles, one per life, five pixels apart modulo 256;
  and the game goes on: the next press of the launch button launches the ball again.
\<close>

theorem lives_wrap_around:
  assumes "ball_state s \<noteq> 0"
    and "uint (ball_y (after_walls (update_paddle (read_input p s)))) \<ge> SCREEN_HEIGHT - 2"
    and "lives s = 0"
  shows "lives (frame p s) = 255 \<and> ball_state (frame p s) = 0 \<and>
         length (draw_hud (frame p s)) = 255 \<and>
         draw_hud (frame p s) =
           map (\<lambda>k. (2 + 5 * of_nat k, 2, 3, 3, HUE_RED OR SAT_FULL OR 5)) [0..<255] \<and>
         ((q XOR 0xFF) AND BTN_A \<noteq> 0 \<and> (p XOR 0xFF) AND BTN_A = 0 \<longrightarrow>
            ball_state (frame q (frame p s)) = 1 \<and> lives (frame q (frame p s)) = 255)"
proof -
  let ?t = "update_paddle (read_input p s)"
  have t: "ball_state ?t \<noteq> 0" "lives ?t = 0"
    using assms by (simp_all add: update_paddle_keeps read_input_def)
  have l: "lives (frame p s) = 255" and b: "ball_state (frame p s) = 0"
    using ball_lost_frame_aux [OF t(1) assms(2)] t(2)
    by (simp_all add: frame_def update_game_def Let_def)
  have i: "input_buffer (frame p s) = p XOR 0xFF"
    by (simp add: frame_keeps)
  show ?thesis
    using l b i frame_on_paddle(1) [OF b, of q] frame_on_paddle(3) [OF b, of q]
    by (simp add: draw_hud_eq)
qed

subsection \<open>The counter of the bricks\<close>

lemma filter_update_drop:
  "i < length xs \<Longrightarrow> P (xs ! i) \<Longrightarrow> \<not> P y \<Longrightarrow>
   Suc (length (filter P (xs[i := y]))) = length (filter P xs)"
proof (induction xs arbitrary: i)
  case Nil
  then show ?case by simp
next
  case (Cons x xs)
  then show ?case by (cases i) auto
qed

lemma uint_pred:
  assumes "uint (w :: 8 word) \<noteq> 0"
  shows "uint (w - 1) = uint w - 1"
proof -
  have "0 < uint w"
    using assms uint_ge_0 [of w] by linarith
  moreover have "uint w < 256"
    using uint_lt2p [of w] by simp
  ultimately have "(uint w - 1) mod 256 = uint w - 1"
    by (intro mod_pos_pos_trivial) linarith+
  then show ?thesis
    by (simp add: uint_word_ariths)
qed

lemma uint_succ:
  assumes "uint (w :: 8 word) < 255"
  shows "uint (w + 1) = uint w + 1"
proof -
  have "0 \<le> uint w" by simp
  with assms have "(uint w + 1) mod 256 = uint w + 1"
    by (intro mod_pos_pos_trivial) simp_all
  then show ?thesis
    by (simp add: uint_word_ariths)
qed

lemma hit_brick_counter:
  assumes len: "length (bricks s) = 48" and i: "i < 48"
    and hit: "brick_hit s (bricks s ! i)" and inv: "counter_inv s"
  shows "counter_inv (hit_brick i s)"
proof -
  let ?P = "\<lambda>b. brick_active b \<noteq> 0"
  have "Suc (length (filter ?P ((bricks s)[i := (bricks s ! i)\<lparr>brick_active := 0\<rparr>]))) =
          length (filter ?P (bricks s))"
    using len i hit by (intro filter_update_drop) (simp_all add: brick_hit_def)
  then have n: "int (active_bricks (hit_brick i s)) = int (active_bricks s) - 1"
    by (simp add: active_bricks_def hit_brick_def)
  then have "uint (bricks_left s) \<noteq> 0"
    using inv by (simp add: counter_inv_def)
  then have "uint (bricks_left (hit_brick i s)) = uint (bricks_left s) - 1"
    by (simp add: hit_brick_def uint_pred)
  with n inv show ?thesis
    by (simp add: counter_inv_def)
qed

lemma brick_loop_counter:
  assumes "length (bricks s) = 48" and "counter_inv s"
  shows "counter_inv (brick_loop idx s)"
  using brick_loop_cases [of idx s] assms by (auto simp: hit_brick_counter)

lemma update_ball_counter:
  assumes len: "length (bricks s) = 48" and inv: "counter_inv s"
  shows "counter_inv (update_ball s)"
proof (cases "ball_state s = 0")
  case True
  with inv show ?thesis
    by (simp add: update_ball_def ball_on_paddle_def Let_def counter_inv_def active_bricks_def)
next
  case False
  have b: "length (bricks (before_bricks s)) = 48" "counter_inv (before_bricks s)"
    using len inv
    by (simp_all add: before_bricks_def counter_inv_def active_bricks_def
        paddle_collision_keeps after_walls_keeps)
  have l: "counter_inv (ball_lost (side_walls (move_ball s)))"
    using inv
    by (simp add: counter_inv_def active_bricks_def ball_lost_def side_walls_def move_ball_def)
  show ?thesis
    using False b l
    by (simp add: update_ball_active brick_collision_def brick_loop_counter)
qed

lemma frame_counter:
  assumes len: "length (bricks s) = 48" and inv: "counter_inv s"
  shows "counter_inv (frame p s)"
proof -
  let ?t = "update_paddle (read_input p s)"
  have "length (bricks ?t) = 48" "counter_inv ?t"
    using len inv
    by (simp_all add: counter_inv_def active_bricks_def update_paddle_keeps read_input_def)
  then have "counter_inv (update_ball ?t)"
    by (rule update_ball_counter)
  then show ?thesis
    by (simp add: frame_def update_game_def Let_def counter_inv_def active_bricks_def)
qed

lemma run_counter:
  "length (bricks s) = 48 \<Longrightarrow> counter_inv s \<Longrightarrow>
   length (bricks (run pads s)) = 48 \<and> counter_inv (run pads s)"
  by (induction pads arbitrary: s) (simp_all add: frame_counter frame_keeps)

lemma init_bricks_loop_counter:
  "length (bricks s) = 48 \<Longrightarrow> idx \<le> 48 \<Longrightarrow> uint (bricks_left s) = int idx \<Longrightarrow>
   list_all (\<lambda>b. brick_active b \<noteq> 0) (take idx (bricks s)) \<Longrightarrow>
   length (bricks (init_bricks_loop idx s)) = 48 \<and>
   uint (bricks_left (init_bricks_loop idx s)) = 48 \<and>
   list_all (\<lambda>b. brick_active b \<noteq> 0) (bricks (init_bricks_loop idx s))"
proof (induction idx s rule: init_bricks_loop.induct)
  case (1 idx s)
  show ?case
  proof (cases "idx < 48")
    case False
    with "1.prems" have "idx = 48" by simp
    with "1.prems" show ?thesis
      by (subst (1 2 3) init_bricks_loop.simps) simp
  next
    case True
    define b where "b = (bricks s ! idx)
                   \<lparr>brick_x := word_of_int (push_bit 4 (uint (word_of_int (int idx AND 0x07) :: uint8_t)) + BRICK_START_X),
                    brick_y := word_of_int (uint (word_of_int (int idx div 8) :: uint8_t) * 7 + BRICK_START_Y),
                    brick_color := word_of_int (uint (word_of_int (int idx div 8) :: uint8_t) + 1),
                    brick_active := 1\<rparr>"
    define s' where "s' = s\<lparr>bricks := (bricks s)[idx := b],
                 bricks_left := word_of_int (uint (bricks_left s) + 1)\<rparr>"
    have unfold: "init_bricks_loop idx s = init_bricks_loop (idx + 1) s'"
      using True by (subst init_bricks_loop.simps) (simp add: Let_def s'_def b_def)
    have act: "brick_active b \<noteq> 0" by (simp add: b_def)
    have "take (idx + 1) (bricks s') = take idx (bricks s) @ [b]"
      using True "1.prems"(1) by (simp add: s'_def take_Suc_conv_app_nth)
    then have p4: "list_all (\<lambda>b. brick_active b \<noteq> 0) (take (idx + 1) (bricks s'))"
      using "1.prems"(4) act by simp
    have p1: "length (bricks s') = 48" using "1.prems"(1) by (simp add: s'_def)
    have p2: "idx + 1 \<le> 48" using True by simp
    have lt: "uint (bricks_left s) < 255" using "1.prems"(3) True by simp
    have "uint (bricks_left s') = uint (bricks_left s) + 1"
      using uint_succ [OF lt] by (simp add: s'_def)
    then have p3: "uint (bricks_left s') = int (idx + 1)"
      using "1.prems"(3) by linarith
    have "int idx < TOTAL_BRICKS" using True by simp
    from "1.IH" [OF this refl refl refl, folded b_def, folded s'_def, OF p1 p2 p3 p4]
    show ?thesis unfolding unfold .
  qed
qed

lemma init_game_counter:
  assumes "length (bricks s0) = 48"
  shows "length (bricks (init_game s0)) = 48 \<and> counter_inv (init_game s0)"
proof -
  let ?s = "init_game s0"
  have r: "length (bricks ?s) = 48 \<and> uint (bricks_left ?s) = 48 \<and>
        list_all (\<lambda>b. brick_active b \<noteq> 0) (bricks ?s)"
    unfolding init_game_def init_bricks_def
    using assms by (intro init_bricks_loop_counter) simp_all
  then have "filter (\<lambda>b. brick_active b \<noteq> 0) (bricks ?s) = bricks ?s"
    by (simp add: list_all_iff)
  with r show ?thesis
    by (simp add: counter_inv_def active_bricks_def)
qed

lemma start_counter: "length (bricks start) = 48 \<and> counter_inv start"
  unfolding start_def by (rule init_game_counter) (simp add: power_on_def)

text \<open>
  C7: \<open>bricks_left\<close> equals the number of bricks whose flag is set after \<^verbatim>\<open>init_game\<close>
  (on an array of 48 bricks), each operation of a frame keeps the equality, and it holds
  after every frame of the loop.
\<close>

theorem counter_inv_every_frame:
  "(length (bricks s0) = 48 \<longrightarrow> counter_inv (init_game s0)) \<and>
   (length (bricks s) = 48 \<and> counter_inv s \<longrightarrow>
      counter_inv (read_input p s) \<and> counter_inv (update_paddle s) \<and>
      counter_inv (update_ball s) \<and> counter_inv (frame p s)) \<and>
   counter_inv (run pads start)"
proof (intro conjI impI)
  assume "length (bricks s0) = 48"
  then show "counter_inv (init_game s0)" by (simp add: init_game_counter)
next
  assume a: "length (bricks s) = 48 \<and> counter_inv s"
  then show "counter_inv (read_input p s)"
    by (simp add: counter_inv_def active_bricks_def read_input_def)
  from a show "counter_inv (update_paddle s)"
    by (simp add: counter_inv_def active_bricks_def update_paddle_keeps)
  from a show "counter_inv (update_ball s)" by (simp add: update_ball_counter)
  from a show "counter_inv (frame p s)" by (simp add: frame_counter)
next
  show "counter_inv (run pads start)"
    using run_counter [of start pads] start_counter by simp
qed

subsection \<open>The first brick hit\<close>

lemma brick_loop_first_hit:
  assumes len: "length (bricks s) = 48" and fh: "first_hit s i"
  shows "k \<le> i \<Longrightarrow> brick_loop k s = hit_brick i s"
proof (induction "i - k" arbitrary: k)
  case 0
  then have "k = i" by simp
  with fh len show ?case
    by (simp add: first_hit_def brick_loop_hit)
next
  case (Suc n)
  then have lt: "k < i" by simp
  have i: "i < 48" using fh len by (simp add: first_hit_def)
  have "bricks s ! k \<in> set (take i (bricks s))"
    using lt i len by (auto simp: in_set_conv_nth intro!: exI [of _ k])
  then have "\<not> brick_hit s (bricks s ! k)"
    using fh by (auto simp: first_hit_def list_all_iff)
  then have "brick_loop k s = brick_loop (Suc k) s"
    using lt i by (intro brick_loop_skip) simp_all
  also have "\<dots> = hit_brick i s"
    using Suc lt by (intro Suc.hyps(1)) simp_all
  finally show ?case .
qed

lemma first_hit_exists:
  assumes "\<exists>j < length (bricks s). brick_hit s (bricks s ! j)"
  shows "\<exists>i. first_hit s i"
proof -
  define Q where "Q j \<longleftrightarrow> j < length (bricks s) \<and> brick_hit s (bricks s ! j)" for j
  from assms have "\<exists>j. Q j" by (auto simp: Q_def)
  then have l: "Q (LEAST j. Q j)" by (auto intro: LeastI)
  let ?i = "LEAST j. Q j"
  have m: "\<And>j. j < ?i \<Longrightarrow> \<not> Q j" by (rule not_less_Least)
  have "list_all (\<lambda>b. \<not> brick_hit s b) (take ?i (bricks s))"
  proof (clarsimp simp: list_all_iff in_set_conv_nth)
    fix k
    assume k: "k < length (bricks s)" "k < ?i" and "brick_hit s (bricks s ! k)"
    then have "Q k" by (simp add: Q_def)
    with m [OF k(2)] show False by simp
  qed
  with l show ?thesis by (auto simp: first_hit_def Q_def)
qed

lemma first_hit_unique: "first_hit s i \<Longrightarrow> first_hit s j \<Longrightarrow> i = j"
proof (rule ccontr)
  assume a: "first_hit s i" "first_hit s j" and "i \<noteq> j"
  then consider "i < j" | "j < i" by linarith
  then show False
  proof cases
    case 1
    with a have "bricks s ! i \<in> set (take j (bricks s))"
      by (auto simp: first_hit_def in_set_conv_nth intro!: exI [of _ i])
    with a show False by (auto simp: first_hit_def list_all_iff)
  next
    case 2
    with a have "bricks s ! j \<in> set (take i (bricks s))"
      by (auto simp: first_hit_def in_set_conv_nth intro!: exI [of _ j])
    with a show False by (auto simp: first_hit_def list_all_iff)
  qed
qed

text \<open>
  What the loop does when it runs: in a frame in which the ball is in flight and is not
  lost, and \<^verbatim>\<open>update_ball\<close> does not return at the test before the loop, if some active
  brick overlaps the ball then exactly one brick is destroyed. The first such brick in
  the order of the array has its flag cleared, no other brick changes, \<open>vy\<close> is negated,
  and \<open>score\<close> and \<open>bricks_left\<close> change by one (\<open>score\<close> modulo \<open>2 ^ 16\<close>,
  \<open>bricks_left\<close> modulo \<open>2 ^ 8\<close>).
\<close>

lemma first_brick_destroyed:
  assumes len: "length (bricks s) = 48"
    and flight: "ball_state s \<noteq> 0"
    and not_lost: "\<not> uint (ball_y (after_walls s)) \<ge> SCREEN_HEIGHT - 2"
    and area: "brick_area (before_bricks s)"
    and some: "\<exists>j < 48. brick_hit (before_bricks s) (bricks s ! j)"
  shows "\<exists>i. first_hit (before_bricks s) i \<and>
           bricks (update_ball s) = (bricks s)[i := (bricks s ! i)\<lparr>brick_active := 0\<rparr>] \<and>
           brick_active (bricks (update_ball s) ! i) = 0 \<and>
           (\<forall>j < 48. j \<noteq> i \<longrightarrow> bricks (update_ball s) ! j = bricks s ! j) \<and>
           Suc (active_bricks (update_ball s)) = active_bricks s \<and>
           ball_vy (update_ball s) = - ball_vy (before_bricks s) \<and>
           score (update_ball s) = score s + 1 \<and>
           bricks_left (update_ball s) = bricks_left s - 1"
proof -
  let ?t = "before_bricks s"
  have t: "bricks ?t = bricks s" "score ?t = score s" "bricks_left ?t = bricks_left s"
    by (simp_all add: before_bricks_def paddle_collision_keeps after_walls_keeps)
  from some len t obtain i where i: "first_hit ?t i"
    using first_hit_exists [of ?t] by auto
  then have i48: "i < 48" and act: "brick_active (bricks s ! i) \<noteq> 0"
    using len t by (simp_all add: first_hit_def brick_hit_def)
  have "update_ball s = brick_loop 0 ?t"
    using flight not_lost area by (simp add: update_ball_active brick_collision_def)
  also have "\<dots> = hit_brick i ?t"
    using len t i by (intro brick_loop_first_hit) simp_all
  finally have u: "update_ball s = hit_brick i ?t" .
  have b: "bricks (update_ball s) = (bricks s)[i := (bricks s ! i)\<lparr>brick_active := 0\<rparr>]"
    by (simp add: u hit_brick_def t)
  have "Suc (length (filter (\<lambda>b. brick_active b \<noteq> 0)
              ((bricks s)[i := (bricks s ! i)\<lparr>brick_active := 0\<rparr>]))) =
        length (filter (\<lambda>b. brick_active b \<noteq> 0) (bricks s))"
    using i48 len act by (intro filter_update_drop) simp_all
  then have c: "Suc (active_bricks (update_ball s)) = active_bricks s"
    by (simp add: active_bricks_def b)
  have "brick_active (bricks (update_ball s) ! i) = 0"
    and "\<forall>j < 48. j \<noteq> i \<longrightarrow> bricks (update_ball s) ! j = bricks s ! j"
    using i48 len by (simp_all add: b)
  moreover have "ball_vy (update_ball s) = - ball_vy ?t"
    and "score (update_ball s) = score s + 1"
    and "bricks_left (update_ball s) = bricks_left s - 1"
    by (simp_all add: u hit_brick_def t)
  ultimately show ?thesis
    using i b c by blast
qed

subsection \<open>The horizontal motion of the ball\<close>

lemma side_walls_right:
  assumes "ball_vx s = 2" and "uint (ball_x s) \<le> 124"
  shows "\<not> left_wall_hit (move_ball s)"
    and "uint (ball_x s) + sint (ball_vx s) > 0"
    and "ball_vx (side_walls (move_ball s)) = 2 \<and> uint (ball_x (side_walls (move_ball s))) \<le> 124 \<or>
         ball_vx (side_walls (move_ball s)) = - 2 \<and> ball_x (side_walls (move_ball s)) = 124"
proof -
  have "(uint (ball_x s) + 2) mod 256 = uint (ball_x s) + 2"
    using assms(2) by (intro mod_pos_pos_trivial) simp_all
  then have x: "uint (ball_x (move_ball s)) = uint (ball_x s) + 2"
    using assms(1) by (simp add: move_ball_def uint_add2)
  have v: "ball_vx (move_ball s) = 2"
    using assms(1) by (simp add: move_ball_def)
  have "ball_x (move_ball s) \<noteq> 0"
    using x uint_ge_0 [of "ball_x s"] by (metis add_nonneg_eq_0_iff uint_0_eq zero_le_numeral zero_neq_numeral)
  then show "\<not> left_wall_hit (move_ball s)"
    by (simp add: left_wall_hit_def)
  then show "ball_vx (side_walls (move_ball s)) = 2 \<and> uint (ball_x (side_walls (move_ball s))) \<le> 124 \<or>
         ball_vx (side_walls (move_ball s)) = - 2 \<and> ball_x (side_walls (move_ball s)) = 124"
    using x v by (simp add: side_walls_def right_wall_hit_def)
  have "sint (ball_vx s) = 2"
    using assms(1) by simp
  then show "uint (ball_x s) + sint (ball_vx s) > 0"
    using uint_ge_0 [of "ball_x s"] by linarith
qed

lemma side_walls_left:
  assumes "ball_vx s = - 2" and "even (uint (ball_x s))"
    and "2 \<le> uint (ball_x s)" and "uint (ball_x s) \<le> 124"
  shows "uint (ball_x s) + sint (ball_vx s) \<le> 0 \<longleftrightarrow> uint (ball_x s) = 2"
    and "uint (ball_x s) = 2 \<Longrightarrow>
           left_wall_hit (move_ball s) \<and> \<not> right_wall_hit (move_ball s) \<and>
           ball_vx (side_walls (move_ball s)) = 2 \<and> ball_x (side_walls (move_ball s)) = 1"
    and "uint (ball_x s) \<noteq> 2 \<Longrightarrow>
           ball_vx (side_walls (move_ball s)) = - 2 \<and>
           even (uint (ball_x (side_walls (move_ball s)))) \<and>
           2 \<le> uint (ball_x (side_walls (move_ball s))) \<and>
           uint (ball_x (side_walls (move_ball s))) \<le> 124"
proof -
  have "(uint (ball_x s) - 2) mod 256 = uint (ball_x s) - 2"
    using assms(3,4) by (intro mod_pos_pos_trivial) simp_all
  then have x: "uint (ball_x (move_ball s)) = uint (ball_x s) - 2"
    using assms(1) by (simp add: move_ball_def uint_sub2)
  have v: "ball_vx (move_ball s) = - 2"
    using assms(1) by (simp add: move_ball_def)
  show "uint (ball_x s) + sint (ball_vx s) \<le> 0 \<longleftrightarrow> uint (ball_x s) = 2"
    using assms(1,3) by auto
  {
    assume "uint (ball_x s) = 2"
    then have "ball_x (move_ball s) = 0"
      using x by (simp add: uint_0_iff [symmetric] del: uint_0_iff)
    then show "left_wall_hit (move_ball s) \<and> \<not> right_wall_hit (move_ball s) \<and>
           ball_vx (side_walls (move_ball s)) = 2 \<and> ball_x (side_walls (move_ball s)) = 1"
      using v by (simp add: side_walls_def left_wall_hit_def right_wall_hit_def)
  }
  {
    assume n: "uint (ball_x s) \<noteq> 2"
    then have "uint (ball_x (move_ball s)) \<noteq> 0" using x by simp
    then have "ball_x (move_ball s) \<noteq> 0" by auto
    moreover have "even (uint (ball_x (move_ball s)))" "2 \<le> uint (ball_x (move_ball s))"
      "uint (ball_x (move_ball s)) \<le> 124"
      using x n assms(2,3,4) by (simp_all, presburger)
    ultimately show "ball_vx (side_walls (move_ball s)) = - 2 \<and>
           even (uint (ball_x (side_walls (move_ball s)))) \<and>
           2 \<le> uint (ball_x (side_walls (move_ball s))) \<and>
           uint (ball_x (side_walls (move_ball s))) \<le> 124"
      using v by (simp add: side_walls_def left_wall_hit_def right_wall_hit_def)
  }
qed

lemma side_walls_flight:
  assumes "ball_vx s = 2 \<and> uint (ball_x s) \<le> 124 \<or>
           ball_vx s = - 2 \<and> even (uint (ball_x s)) \<and>
           2 \<le> uint (ball_x s) \<and> uint (ball_x s) \<le> 124"
  shows "ball_vx (side_walls (move_ball s)) = 2 \<and>
           uint (ball_x (side_walls (move_ball s))) \<le> 124 \<or>
         ball_vx (side_walls (move_ball s)) = - 2 \<and>
           even (uint (ball_x (side_walls (move_ball s)))) \<and>
           2 \<le> uint (ball_x (side_walls (move_ball s))) \<and>
           uint (ball_x (side_walls (move_ball s))) \<le> 124"
proof -
  from assms consider
    (right) "ball_vx s = 2" "uint (ball_x s) \<le> 124" |
    (two) "ball_vx s = - 2" "uint (ball_x s) = 2" |
    (left) "ball_vx s = - 2" "even (uint (ball_x s))" "2 \<le> uint (ball_x s)"
      "uint (ball_x s) \<le> 124" "uint (ball_x s) \<noteq> 2"
    by blast
  then show ?thesis
  proof cases
    case right
    from side_walls_right(3) [OF right] show ?thesis by auto
  next
    case two
    then have "ball_vx (side_walls (move_ball s)) = 2 \<and> ball_x (side_walls (move_ball s)) = 1"
      by (intro conjunct2 [OF conjunct2 [OF side_walls_left(2)]]) simp_all
    then show ?thesis by simp
  next
    case left
    from side_walls_left(3) [OF left] show ?thesis by simp
  qed
qed

lemma update_paddle_even:
  assumes "even (uint (paddle_x s))" and "uint (paddle_x s) \<le> 102"
  shows "even (uint (paddle_x (update_paddle s))) \<and> uint (paddle_x (update_paddle s)) \<le> 102"
proof -
  have up: "(uint (paddle_x s) + 2) mod 256 = uint (paddle_x s) + 2"
    using assms(2) by (intro mod_pos_pos_trivial) simp_all
  have down: "2 \<le> uint (paddle_x s) \<Longrightarrow> (uint (paddle_x s) - 2) mod 256 = uint (paddle_x s) - 2"
    using assms(2) by (intro mod_pos_pos_trivial) simp_all
  have up_down: "(uint (paddle_x s) + 2 - 2) mod 256 = uint (paddle_x s)"
    using assms(2) by (simp add: mod_pos_pos_trivial)
  show ?thesis
    using assms up down up_down
    by (auto simp add: update_paddle_def Let_def uint_add2 uint_sub2)
qed

lemma update_ball_flight:
  assumes "flight_inv s"
  shows "flight_inv (update_ball s)"
proof (cases "ball_state s = 0")
  case True
  have "(uint (paddle_x s) + 10) mod 256 = uint (paddle_x s) + 10"
    using assms by (intro mod_pos_pos_trivial) (simp_all add: flight_inv_def)
  then have "uint (paddle_x s + 10) \<le> 124"
    using assms by (simp add: uint_word_ariths flight_inv_def)
  with True assms show ?thesis
    by (simp add: update_ball_def ball_on_paddle_def Let_def flight_inv_def)
next
  case False
  with assms have ok: "ball_vx s = 2 \<and> uint (ball_x s) \<le> 124 \<or>
           ball_vx s = - 2 \<and> even (uint (ball_x s)) \<and>
           2 \<le> uint (ball_x s) \<and> uint (ball_x s) \<le> 124"
    and st: "ball_state s = 1"
    by (auto simp: flight_inv_def)
  let ?w = "side_walls (move_ball s)"
  note w = side_walls_flight [OF ok]
  have aw: "ball_x (after_walls s) = ball_x ?w" "ball_vx (after_walls s) = ball_vx ?w"
    by (simp_all add: after_walls_def Let_def top_wall_def)
  have nz: "ball_vx (after_walls s) \<noteq> 0"
    using w aw by auto
  have pc: "ball_vx (paddle_collision (after_walls s)) = ball_vx ?w"
    using nz aw by (simp add: paddle_collision_def Let_def)
  have bb: "ball_x (brick_collision (before_bricks s)) = ball_x ?w"
    "ball_vx (brick_collision (before_bricks s)) = ball_vx ?w"
    "ball_state (brick_collision (before_bricks s)) = 1"
    "paddle_x (brick_collision (before_bricks s)) = paddle_x s"
    using st aw pc
    by (simp_all add: brick_collision_keeps before_bricks_def paddle_collision_keeps
        after_walls_keeps)
  have lost: "ball_state (ball_lost ?w) = 0" "paddle_x (ball_lost ?w) = paddle_x s"
    by (simp_all add: ball_lost_def side_walls_def move_ball_def)
  show ?thesis
  proof (cases "uint (ball_y (after_walls s)) \<ge> SCREEN_HEIGHT - 2")
    case True
    with False lost assms show ?thesis
      by (simp add: update_ball_active flight_inv_def)
  next
    case not_lost: False
    with False bb w assms show ?thesis
      by (simp add: update_ball_active flight_inv_def)
  qed
qed

lemma frame_flight: "flight_inv s \<Longrightarrow> flight_inv (frame p s)"
proof -
  assume a: "flight_inv s"
  let ?r = "read_input p s"
  have "flight_inv ?r" using a by (simp add: flight_inv_def read_input_def)
  then have "flight_inv (update_paddle ?r)"
    using update_paddle_even [of ?r]
    by (simp add: flight_inv_def update_paddle_keeps)
  then have "flight_inv (update_ball (update_paddle ?r))"
    by (rule update_ball_flight)
  then show ?thesis
    by (simp add: frame_def update_game_def Let_def flight_inv_def)
qed

lemma start_flight: "flight_inv start"
  by (simp add: flight_inv_def start_eq)

lemma run_flight: "flight_inv s \<Longrightarrow> flight_inv (run pads s)"
  by (induction pads arbitrary: s) (simp_all add: frame_flight)

lemma paddle_step_flight:
  "flight_inv s \<Longrightarrow> flight_inv (update_paddle (read_input p s))"
  using update_paddle_even [of "read_input p s"]
  by (simp add: flight_inv_def update_paddle_keeps read_input_def)

text \<open>
  C5: in every frame of the loop in which the ball is in flight, if the old \<open>x\<close> plus the
  signed \<open>vx\<close>, computed in the integers, is at most 0, then the test of the left wall
  succeeds on the stored position, \<open>vx\<close> is negated and \<open>x\<close> is set to 1, and the branch
  of the right wall is not taken. The state is the one \<^verbatim>\<open>update_ball\<close> receives in a frame
  of a run from \<open>start\<close>.
\<close>

theorem left_wall_reflects:
  assumes "s = update_paddle (read_input p (run pads start))"
    and "ball_state s \<noteq> 0"
    and "uint (ball_x s) + sint (ball_vx s) \<le> 0"
  shows "left_wall_hit (move_ball s) \<and> \<not> right_wall_hit (move_ball s) \<and>
         ball_vx (side_walls (move_ball s)) = - ball_vx s \<and>
         ball_x (side_walls (move_ball s)) = 1"
proof -
  have "flight_inv s"
    unfolding assms(1) by (intro paddle_step_flight run_flight start_flight)
  with assms(2) have ok: "ball_vx s = 2 \<and> uint (ball_x s) \<le> 124 \<or>
           ball_vx s = - 2 \<and> even (uint (ball_x s)) \<and>
           2 \<le> uint (ball_x s) \<and> uint (ball_x s) \<le> 124"
    by (auto simp: flight_inv_def)
  have "\<not> (ball_vx s = 2 \<and> uint (ball_x s) \<le> 124)"
    using side_walls_right(2) [of s] assms(3) by auto
  with ok have l: "ball_vx s = - 2" "even (uint (ball_x s))" "2 \<le> uint (ball_x s)"
    "uint (ball_x s) \<le> 124"
    by auto
  then have "uint (ball_x s) = 2"
    using side_walls_left(1) [OF l] assms(3) by simp
  from side_walls_left(2) [OF l this] l(1) show ?thesis by simp
qed

text \<open>
  The restriction to the states of a run is needed. In a state that no run reaches, with
  the ball at \<open>x = 1\<close> moving left, the stored position wraps around to 255, the test of
  the left wall fails and the one of the right wall succeeds.
\<close>

lemma left_wall_off_run:
  "uint (ball_x (start\<lparr>ball_state := 1, ball_x := 1, ball_vx := - 2\<rparr>)) +
     sint (ball_vx (start\<lparr>ball_state := 1, ball_x := 1, ball_vx := - 2\<rparr>)) \<le> 0 \<and>
   \<not> left_wall_hit (move_ball (start\<lparr>ball_state := 1, ball_x := 1, ball_vx := - 2\<rparr>)) \<and>
   right_wall_hit (move_ball (start\<lparr>ball_state := 1, ball_x := 1, ball_vx := - 2\<rparr>)) \<and>
   ball_x (side_walls (move_ball (start\<lparr>ball_state := 1, ball_x := 1, ball_vx := - 2\<rparr>))) = 124 \<and>
   \<not> flight_inv (start\<lparr>ball_state := 1, ball_x := 1, ball_vx := - 2\<rparr>)"
  by code_simp

subsection \<open>The loop over the bricks, by recursion over the array\<close>

lemma scan_bricks_Cons:
  "scan_bricks (uint (ball_x s)) (uint (ball_y s)) (b # bs) i =
     (if brick_hit s b then Some i else scan_bricks (uint (ball_x s)) (uint (ball_y s)) bs (Suc i))"
  by (simp add: brick_hit_def brick_overlap_def)

lemma scan_bricks_None:
  "length (bricks s) = 48 \<Longrightarrow> k \<le> 48 \<Longrightarrow>
   scan_bricks (uint (ball_x s)) (uint (ball_y s)) (drop k (bricks s)) k = None \<Longrightarrow>
   brick_loop k s = s"
proof (induction "48 - k" arbitrary: k)
  case 0
  then show ?case by (simp add: brick_loop_done)
next
  case (Suc n)
  then have k: "k < 48" by simp
  then have d: "drop k (bricks s) = bricks s ! k # drop (Suc k) (bricks s)"
    using Suc.prems(1) by (simp add: Cons_nth_drop_Suc)
  with Suc.prems(3) have nh: "\<not> brick_hit s (bricks s ! k)"
    and rest: "scan_bricks (uint (ball_x s)) (uint (ball_y s)) (drop (Suc k) (bricks s)) (Suc k) = None"
    by (auto simp: scan_bricks_Cons simp del: scan_bricks.simps split: if_splits)
  have "brick_loop k s = brick_loop (Suc k) s"
    using k nh by (rule brick_loop_skip)
  also have "\<dots> = s"
    using Suc.hyps(2) k Suc.prems(1) rest by (intro Suc.hyps(1)) simp_all
  finally show ?case .
qed

lemma scan_bricks_Some:
  "length (bricks s) = 48 \<Longrightarrow> k \<le> 48 \<Longrightarrow>
   scan_bricks (uint (ball_x s)) (uint (ball_y s)) (drop k (bricks s)) k = Some i \<Longrightarrow>
   brick_loop k s = hit_brick i s"
proof (induction "48 - k" arbitrary: k)
  case 0
  then show ?case by simp
next
  case (Suc n)
  then have k: "k < 48" by simp
  then have d: "drop k (bricks s) = bricks s ! k # drop (Suc k) (bricks s)"
    using Suc.prems(1) by (simp add: Cons_nth_drop_Suc)
  show ?case
  proof (cases "brick_hit s (bricks s ! k)")
    case True
    with d Suc.prems(3) have "i = k"
      by (simp add: scan_bricks_Cons del: scan_bricks.simps)
    with True k show ?thesis by (simp add: brick_loop_hit)
  next
    case False
    with d Suc.prems(3)
    have rest: "scan_bricks (uint (ball_x s)) (uint (ball_y s)) (drop (Suc k) (bricks s)) (Suc k) = Some i"
      by (simp add: scan_bricks_Cons del: scan_bricks.simps)
    have "brick_loop k s = brick_loop (Suc k) s"
      using k False by (rule brick_loop_skip)
    also have "\<dots> = hit_brick i s"
      using Suc.hyps(2) k Suc.prems(1) rest by (intro Suc.hyps(1)) simp_all
    finally show ?thesis .
  qed
qed

text \<open>The equation by which the runs below are computed.\<close>

lemma brick_collision_scan [code]:
  "brick_collision s =
     (if \<not> brick_area s then s
      else if length (bricks s) = 48 then
        (case scan_bricks (uint (ball_x s)) (uint (ball_y s)) (bricks s) 0 of
           None \<Rightarrow> s | Some i \<Rightarrow> hit_brick i s)
      else brick_loop 0 s)"
  using scan_bricks_None [of s 0] scan_bricks_Some [of s 0]
  by (auto simp: brick_collision_def split: option.splits)

subsection \<open>Runs\<close>

lemma run_append: "run (ps @ qs) s = run qs (run ps s)"
  by (induction ps arbitrary: s) simp_all

lemma bounce_run:
  "run bounce_pads start =
     \<lparr>frame_count = 63, paddle_x = 52, ball_x = 64, ball_y = 111, ball_vx = 254, ball_vy = 2,
      ball_state = 1, input_buffer = 0, prev_input = 0, score = 1, lives = 3, bricks_left = 47,
      bricks = grid [47]\<rparr>"
  by code_simp

lemma left_run:
  "run left_pads start =
     \<lparr>frame_count = 94, paddle_x = 52, ball_x = 2, ball_y = 51, ball_vx = 254, ball_vy = 254,
      ball_state = 1, input_buffer = 0, prev_input = 0, score = 1, lives = 3, bricks_left = 47,
      bricks = grid [47]\<rparr>"
  unfolding left_pads_def run_append bounce_run by code_simp

lemma miss_run:
  "run miss_pads start =
     \<lparr>frame_count = 64, paddle_x = 38, ball_x = 62, ball_y = 113, ball_vx = 254, ball_vy = 2,
      ball_state = 1, input_buffer = 0, prev_input = 0, score = 1, lives = 3, bricks_left = 47,
      bricks = grid [47]\<rparr>"
  by code_simp

lemma fall_run:
  "run fall_pads start =
     \<lparr>frame_count = 70, paddle_x = 38, ball_x = 50, ball_y = 125, ball_vx = 254, ball_vy = 2,
      ball_state = 1, input_buffer = 0, prev_input = 0, score = 1, lives = 3, bricks_left = 47,
      bricks = grid [47]\<rparr>"
  unfolding fall_pads_def run_append miss_run by code_simp

lemma tie_run:
  "run tie_pads start =
     \<lparr>frame_count = 52, paddle_x = 10, ball_x = 80, ball_y = 51, ball_vx = 2, ball_vy = 254,
      ball_state = 1, input_buffer = 0, prev_input = 0, score = 0, lives = 3, bricks_left = 48,
      bricks = grid []\<rparr>"
  by code_simp

lemma top_run:
  "run top_pads start =
     \<lparr>frame_count = 230, paddle_x = 94, ball_x = 49, ball_y = 8, ball_vx = 2, ball_vy = 254,
      ball_state = 1, input_buffer = 0, prev_input = 0, score = 35, lives = 0, bricks_left = 13,
      bricks = grid
        [0, 1, 2, 8, 9, 10, 11, 12, 16, 17, 18, 19, 20, 22, 24, 25, 26, 27, 28,
         29, 30, 31, 32, 33, 34, 35, 36, 37, 38, 39, 40, 42, 44, 45, 47]\<rparr>"
  by code_simp

lemma lost_run:
  "run lost_pads start =
     \<lparr>frame_count = 58, paddle_x = 94, ball_x = 32, ball_y = 124, ball_vx = 254, ball_vy = 2,
      ball_state = 1, input_buffer = 0, prev_input = 0, score = 38, lives = 0, bricks_left = 10,
      bricks = grid
        [0, 1, 2, 3, 8, 9, 10, 11, 12, 16, 17, 18, 19, 20, 22, 23, 24, 25, 26,
         27, 28, 29, 30, 31, 32, 33, 34, 35, 36, 37, 38, 39, 40, 42, 44, 45, 46,
         47]\<rparr>"
  unfolding lost_pads_def run_append top_run by code_simp

lemma bounce_frame_eq:
  "bounce_frame =
     \<lparr>frame_count = 63, paddle_x = 52, ball_x = 64, ball_y = 111, ball_vx = 254, ball_vy = 2,
      ball_state = 1, input_buffer = 0, prev_input = 0, score = 1, lives = 3, bricks_left = 47,
      bricks = grid [47]\<rparr>"
  unfolding bounce_frame_def bounce_run by code_simp

lemma left_frame_eq:
  "left_frame =
     \<lparr>frame_count = 94, paddle_x = 52, ball_x = 2, ball_y = 51, ball_vx = 254, ball_vy = 254,
      ball_state = 1, input_buffer = 0, prev_input = 0, score = 1, lives = 3, bricks_left = 47,
      bricks = grid [47]\<rparr>"
  unfolding left_frame_def left_run by code_simp

lemma miss_frame_eq:
  "miss_frame =
     \<lparr>frame_count = 64, paddle_x = 38, ball_x = 62, ball_y = 113, ball_vx = 254, ball_vy = 2,
      ball_state = 1, input_buffer = 0, prev_input = 0, score = 1, lives = 3, bricks_left = 47,
      bricks = grid [47]\<rparr>"
  unfolding miss_frame_def miss_run by code_simp

lemma fall_frame_eq:
  "fall_frame =
     \<lparr>frame_count = 70, paddle_x = 38, ball_x = 50, ball_y = 125, ball_vx = 254, ball_vy = 2,
      ball_state = 1, input_buffer = 0, prev_input = 0, score = 1, lives = 3, bricks_left = 47,
      bricks = grid [47]\<rparr>"
  unfolding fall_frame_def fall_run by code_simp

lemma tie_frame_eq:
  "tie_frame =
     \<lparr>frame_count = 52, paddle_x = 10, ball_x = 80, ball_y = 51, ball_vx = 2, ball_vy = 254,
      ball_state = 1, input_buffer = 0, prev_input = 0, score = 0, lives = 3, bricks_left = 48,
      bricks = grid []\<rparr>"
  unfolding tie_frame_def tie_run by code_simp

lemma top_frame_eq:
  "top_frame =
     \<lparr>frame_count = 230, paddle_x = 94, ball_x = 49, ball_y = 8, ball_vx = 2, ball_vy = 254,
      ball_state = 1, input_buffer = 0, prev_input = 0, score = 35, lives = 0, bricks_left = 13,
      bricks = grid
        [0, 1, 2, 8, 9, 10, 11, 12, 16, 17, 18, 19, 20, 22, 24, 25, 26, 27, 28,
         29, 30, 31, 32, 33, 34, 35, 36, 37, 38, 39, 40, 42, 44, 45, 47]\<rparr>"
  unfolding top_frame_def top_run by code_simp

lemma lost_frame_eq:
  "lost_frame =
     \<lparr>frame_count = 58, paddle_x = 94, ball_x = 32, ball_y = 124, ball_vx = 254, ball_vy = 2,
      ball_state = 1, input_buffer = 0, prev_input = 0, score = 38, lives = 0, bricks_left = 10,
      bricks = grid
        [0, 1, 2, 3, 8, 9, 10, 11, 12, 16, 17, 18, 19, 20, 22, 23, 24, 25, 26,
         27, 28, 29, 30, 31, 32, 33, 34, 35, 36, 37, 38, 39, 40, 42, 44, 45, 46,
         47]\<rparr>"
  unfolding lost_frame_def lost_run by code_simp

theorem left_wall_reflects_witness:
  "left_frame = update_paddle (read_input 0xFF (run left_pads start)) \<and>
   ball_state left_frame \<noteq> 0 \<and>
   uint (ball_x left_frame) + sint (ball_vx left_frame) \<le> 0 \<and>
   left_wall_hit (move_ball left_frame) \<and> \<not> right_wall_hit (move_ball left_frame) \<and>
   ball_vx left_frame = - 2 \<and>
   ball_vx (side_walls (move_ball left_frame)) = 2 \<and>
   ball_x (side_walls (move_ball left_frame)) = 1"
proof -
  have h1: "ball_state left_frame \<noteq> 0"
    unfolding left_frame_eq by simp
  have h2: "uint (ball_x left_frame) + sint (ball_vx left_frame) \<le> 0"
    unfolding left_frame_eq by simp
  have v: "ball_vx left_frame = - 2"
    unfolding left_frame_eq by simp
  from left_wall_reflects [OF left_frame_def h1 h2] h1 h2 v left_frame_def
  show ?thesis by simp
qed

theorem ball_lost_frame_witness:
  "ball_state fall_frame \<noteq> 0 \<and>
   uint (ball_y (after_walls fall_frame)) \<ge> SCREEN_HEIGHT - 2 \<and>
   lives fall_frame = 3 \<and>
   lives (update_ball fall_frame) = 2 \<and>
   ball_state (update_ball fall_frame) = 0 \<and>
   ball_x (update_ball fall_frame) = 62 \<and>
   ball_y (update_ball fall_frame) = 111 \<and>
   ball_vx (update_ball fall_frame) = 0 \<and>
   ball_vy (update_ball fall_frame) = 0"
proof -
  have h1: "ball_state fall_frame \<noteq> 0"
    unfolding fall_frame_eq by simp
  have h2: "uint (ball_y (after_walls fall_frame)) \<ge> SCREEN_HEIGHT - 2"
    unfolding fall_frame_eq by code_simp
  have l: "lives fall_frame = 3"
    unfolding fall_frame_eq by simp
  from ball_lost_frame [OF h1 h2] h1 h2 l show ?thesis by simp
qed

theorem paddle_collision_effect_witness:
  "paddle_band (after_walls bounce_frame) \<and>
   paddle_overlap_x (after_walls bounce_frame) \<and>
   uint (ball_y (after_walls bounce_frame)) < PADDLE_Y \<and>
   sint (ball_vy (after_walls bounce_frame)) > 0 \<and>
   ball_y (paddle_collision (after_walls bounce_frame)) = 111 \<and>
   ball_vy (paddle_collision (after_walls bounce_frame)) = - ball_vy (after_walls bounce_frame) \<and>
   ball_vx (paddle_collision (after_walls bounce_frame)) = ball_vx (after_walls bounce_frame)"
proof -
  let ?t = "after_walls bounce_frame"
  have h: "paddle_band ?t \<and> paddle_overlap_x ?t \<and> uint (ball_y ?t) < PADDLE_Y"
    unfolding bounce_frame_eq by code_simp
  have v: "sint (ball_vy ?t) > 0" "ball_vx ?t \<noteq> 0"
    unfolding bounce_frame_eq by code_simp+
  from h v paddle_collision_effect [of bounce_frame ?t] show ?thesis by simp
qed

theorem counter_inv_every_frame_witness:
  "length (bricks power_on) = 48 \<and> counter_inv (init_game power_on) \<and>
   length (bricks tie_frame) = 48 \<and> counter_inv tie_frame \<and>
   counter_inv (update_ball tie_frame) \<and>
   bricks_left tie_frame = 48 \<and>
   bricks_left (update_ball tie_frame) = 47 \<and>
   active_bricks (update_ball tie_frame) = 47"
proof -
  have h0: "length (bricks power_on) = 48"
    by (simp add: power_on_def)
  have h1: "length (bricks tie_frame) = 48"
    unfolding tie_frame_eq by code_simp
  have h2: "counter_inv tie_frame"
    unfolding tie_frame_eq by code_simp
  have v: "bricks_left tie_frame = 48" "bricks_left (update_ball tie_frame) = 47"
    "active_bricks (update_ball tie_frame) = 47"
    unfolding tie_frame_eq by code_simp+
  from h0 h1 h2 v counter_inv_every_frame [of power_on tie_frame "0xFF" "[]"]
  show ?thesis by simp
qed

lemma first_brick_destroyed_tie:
  "length (bricks tie_frame) = 48 \<and> ball_state tie_frame \<noteq> 0 \<and>
   brick_area (before_bricks tie_frame) \<and>
   first_hit (before_bricks tie_frame) 44 \<and>
   brick_hit (before_bricks tie_frame) (bricks tie_frame ! 45) \<and>
   brick_active (bricks (update_ball tie_frame) ! 44) = 0 \<and>
   brick_active (bricks (update_ball tie_frame) ! 45) = 1 \<and>
   score (update_ball tie_frame) = 1 \<and>
   bricks_left (update_ball tie_frame) = 47"
proof -
  have h1: "length (bricks tie_frame) = 48"
    unfolding tie_frame_eq by code_simp
  have h2: "ball_state tie_frame \<noteq> 0"
    unfolding tie_frame_eq by simp
  have h3: "\<not> uint (ball_y (after_walls tie_frame)) \<ge> SCREEN_HEIGHT - 2"
    unfolding tie_frame_eq by code_simp
  have h4: "brick_area (before_bricks tie_frame)"
    unfolding tie_frame_eq by code_simp
  have f: "first_hit (before_bricks tie_frame) 44"
    unfolding tie_frame_eq by code_simp
  have g: "brick_hit (before_bricks tie_frame) (bricks tie_frame ! 45)"
    unfolding tie_frame_eq by code_simp
  have e: "brick_active (bricks tie_frame ! 45) = 1" "score tie_frame = 0"
    "bricks_left tie_frame = 48"
    unfolding tie_frame_eq by code_simp+
  have "bricks (before_bricks tie_frame) = bricks tie_frame"
    by (simp add: before_bricks_def paddle_collision_keeps after_walls_keeps)
  with f h1 have h5: "\<exists>j < 48. brick_hit (before_bricks tie_frame) (bricks tie_frame ! j)"
    by (auto simp: first_hit_def intro!: exI [of _ 44])
  from first_brick_destroyed [OF h1 h2 h3 h4 h5] obtain i where
    i: "first_hit (before_bricks tie_frame) i"
      "brick_active (bricks (update_ball tie_frame) ! i) = 0"
      "\<forall>j < 48. j \<noteq> i \<longrightarrow> bricks (update_ball tie_frame) ! j = bricks tie_frame ! j"
      "score (update_ball tie_frame) = score tie_frame + 1"
      "bricks_left (update_ball tie_frame) = bricks_left tie_frame - 1"
    by blast
  have "i = 44" using i(1) f by (rule first_hit_unique)
  with i e h1 h2 h4 f g show ?thesis by simp
qed

theorem lives_wrap_around_witness:
  "ball_state (run lost_pads start) \<noteq> 0 \<and>
   uint (ball_y (after_walls (update_paddle (read_input 0xFF (run lost_pads start)))))
     \<ge> SCREEN_HEIGHT - 2 \<and>
   lives (run lost_pads start) = 0 \<and>
   lives (frame 0xFF (run lost_pads start)) = 255 \<and>
   ball_state (frame 0xFF (run lost_pads start)) = 0 \<and>
   length (draw_hud (frame 0xFF (run lost_pads start))) = 255 \<and>
   ball_state (frame 0xEF (frame 0xFF (run lost_pads start))) = 1"
proof -
  have h1: "ball_state (run lost_pads start) \<noteq> 0"
    unfolding lost_run by simp
  have "uint (ball_y (after_walls lost_frame)) \<ge> SCREEN_HEIGHT - 2"
    unfolding lost_frame_eq by code_simp
  then have h2: "uint (ball_y (after_walls (update_paddle (read_input 0xFF (run lost_pads start)))))
     \<ge> SCREEN_HEIGHT - 2"
    unfolding lost_frame_def .
  have h3: "lives (run lost_pads start) = 0"
    unfolding lost_run by simp
  have q: "(0xEF XOR 0xFF) AND BTN_A \<noteq> 0" "(0xFF XOR 0xFF) AND BTN_A = 0"
    by simp_all
  from h1 h2 h3 q lives_wrap_around [OF h1 h2 h3, of "0xEF"] show ?thesis by simp
qed

text \<open>
  C6, as stated: whenever the ball's \<open>y\<close> is in the band of the paddle and the ball
  overlaps the paddle horizontally, the paddle collision puts the ball at
  \<open>PADDLE_Y - BALL_SIZE - 1\<close> and negates a positive \<open>vy\<close>. It fails in frame 65 of the
  run \<open>miss_pads\<close>: the ball is in flight and not lost, at \<open>y = 115\<close> in the band and over
  the paddle, moving down, and the paddle collision changes nothing, since the ball is
  not above the top of the paddle.
\<close>

theorem paddle_collision_counterexample:
  "ball_state miss_frame \<noteq> 0 \<and>
   \<not> uint (ball_y (after_walls miss_frame)) \<ge> SCREEN_HEIGHT - 2 \<and>
   paddle_band (after_walls miss_frame) \<and>
   paddle_overlap_x (after_walls miss_frame) \<and>
   sint (ball_vy (after_walls miss_frame)) > 0 \<and>
   paddle_collision (after_walls miss_frame) = after_walls miss_frame \<and>
   ball_y (paddle_collision (after_walls miss_frame)) = 115 \<and>
   ball_y (paddle_collision (after_walls miss_frame)) \<noteq> word_of_int (PADDLE_Y - BALL_SIZE - 1) \<and>
   ball_vy (paddle_collision (after_walls miss_frame)) \<noteq> - ball_vy (after_walls miss_frame)"
  unfolding miss_frame_eq by code_simp

text \<open>
  C1: in every frame in which the ball is in flight and an active brick overlaps the
  ball at the brick collision, exactly one brick is destroyed, the first such brick in
  the order of the array; \<open>vy\<close> is negated, and \<open>score\<close> and \<open>bricks_left\<close> change by one.
  The code does not do this: in frame 487 of the run \<open>top_pads\<close> the ball has bounced off
  the top wall to \<open>y = 8\<close>, brick 3 is active and is the first to overlap it, and
  \<^verbatim>\<open>update_ball\<close> returns at the test before the loop, which compares the top edge of the
  ball with \<open>BRICK_START_Y\<close>: no brick, no counter and no velocity changes.
\<close>

theorem first_brick_skipped:
  "ball_state top_frame \<noteq> 0 \<and>
   \<not> uint (ball_y (after_walls top_frame)) \<ge> SCREEN_HEIGHT - 2 \<and>
   first_hit (before_bricks top_frame) 3 \<and>
   \<not> brick_area (before_bricks top_frame) \<and>
   bricks (update_ball top_frame) = bricks top_frame \<and>
   brick_active (bricks (update_ball top_frame) ! 3) = 1 \<and>
   score (update_ball top_frame) = score top_frame \<and>
   bricks_left (update_ball top_frame) = bricks_left top_frame \<and>
   ball_vy (update_ball top_frame) = ball_vy (before_bricks top_frame)"
  unfolding top_frame_eq by code_simp

text \<open>
  C9: the test before the loop over the bricks is a pure optimisation, that is,
  \<^verbatim>\<open>update_ball\<close> returns the state that the update without the test
  (\<open>update_ball_scan_all\<close>) returns. The code does not do this: in frame 487 of the run
  \<open>top_pads\<close> the ball is at \<open>y = 8\<close>, its rectangle reaches down to \<open>y = 10\<close> and
  overlaps brick 3; the update without the test destroys brick 3, \<^verbatim>\<open>update_ball\<close> leaves
  it.
\<close>

theorem prefilter_skips_overlap:
  "update_ball top_frame \<noteq> update_ball_scan_all top_frame \<and>
   uint (ball_y (before_bricks top_frame)) = 8 \<and>
   brick_hit (before_bricks top_frame) (bricks top_frame ! 3) \<and>
   brick_active (bricks (update_ball top_frame) ! 3) = 1 \<and>
   brick_active (bricks (update_ball_scan_all top_frame) ! 3) = 0 \<and>
   score (update_ball top_frame) = 35 \<and>
   score (update_ball_scan_all top_frame) = 36 \<and>
   bricks_left (update_ball top_frame) = 13 \<and>
   bricks_left (update_ball_scan_all top_frame) = 12"
  unfolding top_frame_eq by code_simp

end
